theory Spec2Isabelle
  imports
    Complex_Main
    "HOL-Library.Multiset"
    "HOL-Library.AList"
    "HOL-Library.Char_ord"
    "HOL-Library.List_Lexorder"
    "HOL-Library.Log_Nat"
    "HOL-Library.Product_Lexorder"
begin

section \<open>Python values and exceptions\<close>

text \<open>
  The energy-cost analyser is Python. Exceptions are values of \<open>error\<close>; a function
  that may raise returns \<open>error + 'a\<close> with \<open>Inl\<close> the exception. The spec's
  \<open>ConfigNotFound\<close> is Python's \<open>KeyError\<close> (a failed dictionary subscript),
  its \<open>ParseFailure\<close> is \<open>ValueError\<close>. The functions that compute with
  numbers are written over any number type \<open>'n\<close> with \<open>0\<close>, \<open>+\<close>,
  \<open>-\<close> and \<open>*\<close>, assuming no law of arithmetic: at \<open>real\<close> they
  compute exactly, at \<open>double\<close> (below) they compute as Python floats do.
\<close>

datatype error = KeyError | TypeError | ValueError | OSError | AttributeError

definition bind_result :: "error + 'a \<Rightarrow> ('a \<Rightarrow> error + 'b) \<Rightarrow> error + 'b" where
  "bind_result m f = (case m of Inl e \<Rightarrow> Inl e | Inr x \<Rightarrow> f x)"

text \<open>\<open>d[k]\<close> on a dictionary kept as an association list: \<open>KeyError\<close> when absent.\<close>

definition subscript :: "('k \<times> 'v) list \<Rightarrow> 'k \<Rightarrow> error + 'v" where
  "subscript d k = (case map_of d k of None \<Rightarrow> Inl KeyError | Some v \<Rightarrow> Inr v)"

text \<open>A key that may be missing from a JSON object: \<open>d['key']\<close>.\<close>

definition required :: "'a option \<Rightarrow> error + 'a" where
  "required v = (case v of None \<Rightarrow> Inl KeyError | Some x \<Rightarrow> Inr x)"

subsection \<open>\<open>str.split\<close> and \<open>int\<close>\<close>

text \<open>\<open>s.split(sep)\<close> for a one-character separator: one more piece than separators.\<close>

fun split_char :: "char \<Rightarrow> string \<Rightarrow> string list" where
  "split_char sep [] = [[]]"
| "split_char sep (c # cs) =
     (if c = sep then [] # split_char sep cs
      else (case split_char sep cs of
              [] \<Rightarrow> [[c]]
            | w # ws \<Rightarrow> (c # w) # ws))"

text \<open>
  \<open>int(s)\<close> on an ASCII string: surrounding whitespace is stripped, one sign is allowed,
  then decimal digits, single underscores allowed between digits. Anything else raises
  \<open>ValueError\<close>.
\<close>

definition is_space :: "char \<Rightarrow> bool" where
  "is_space c = (let n = (of_char c :: nat) in (9 \<le> n \<and> n \<le> 13) \<or> n = 32)"

definition is_digit :: "char \<Rightarrow> bool" where
  "is_digit c = (let n = (of_char c :: nat) in 48 \<le> n \<and> n \<le> 57)"

definition digit_val :: "char \<Rightarrow> int" where
  "digit_val c = int (of_char c) - 48"

definition strip :: "string \<Rightarrow> string" where
  "strip s = rev (dropWhile is_space (rev (dropWhile is_space s)))"

text \<open>The digits after the sign, read left to right with the value so far.\<close>

fun digits_from :: "int \<Rightarrow> string \<Rightarrow> error + int" where
  "digits_from acc [] = Inl ValueError"
| "digits_from acc (c # cs) =
     (if \<not> is_digit c then Inl ValueError
      else (case cs of
              [] \<Rightarrow> Inr (acc * 10 + digit_val c)
            | d # ds \<Rightarrow>
                if d = CHR ''_'' then digits_from (acc * 10 + digit_val c) ds
                else digits_from (acc * 10 + digit_val c) cs))"

definition py_int :: "string \<Rightarrow> error + int" where
  "py_int s =
     (case strip s of
        [] \<Rightarrow> Inl ValueError
      | c # cs \<Rightarrow>
          if c = CHR ''-'' then bind_result (digits_from 0 cs) (\<lambda>n. Inr (- n))
          else if c = CHR ''+'' then digits_from 0 cs
          else digits_from 0 (c # cs))"

section \<open>Python floats\<close>

text \<open>
  A Python float is an IEEE 754 double. \<open>Double m e\<close> is the number
  \<open>m * 2 ^ e\<close>, kept normalised: zero is \<open>Double 0 0\<close>, any other number has
  a 53-bit \<open>m\<close> (\<open>2 ^ 52 \<le> \<bar>m\<bar> < 2 ^ 53\<close>), so that equal numbers are
  equal values. Sums, differences and products are the exact results rounded to 53 bits,
  to the nearest, ties to the even \<open>m\<close>. Infinities, NaN and the subnormal numbers
  are outside the model: the exponent is not bounded.
\<close>

datatype double = Double int int

text \<open>\<open>m / 2 ^ k\<close> rounded to the nearest integer, ties to even, for \<open>m \<ge> 0\<close>.\<close>

definition round_shift :: "int \<Rightarrow> nat \<Rightarrow> int" where
  "round_shift m k =
     (let q = m div 2 ^ k; r = m mod 2 ^ k; h = 2 ^ (k - 1)
      in if r < h then q else if h < r then q + 1 else if even q then q else q + 1)"

text \<open>The double nearest to \<open>m * 2 ^ e\<close>.\<close>

definition normalise :: "int \<Rightarrow> int \<Rightarrow> double" where
  "normalise m e =
     (if m = 0 then Double 0 0
      else let k = bitlen \<bar>m\<bar> - 53
           in if k \<le> 0 then Double (m * 2 ^ nat (- k)) (e + k)
              else let q = round_shift \<bar>m\<bar> (nat k)
                   in if q = 2 ^ 53 then Double (sgn m * 2 ^ 52) (e + k + 1)
                      else Double (sgn m * q) (e + k))"

instantiation double :: "{zero,plus,minus,times}"
begin

definition zero_double :: double where
  "zero_double = Double 0 0"

fun plus_double :: "double \<Rightarrow> double \<Rightarrow> double" where
  "plus_double (Double m1 e1) (Double m2 e2) =
     (let e = min e1 e2 in normalise (m1 * 2 ^ nat (e1 - e) + m2 * 2 ^ nat (e2 - e)) e)"

fun minus_double :: "double \<Rightarrow> double \<Rightarrow> double" where
  "minus_double (Double m1 e1) (Double m2 e2) =
     (let e = min e1 e2 in normalise (m1 * 2 ^ nat (e1 - e) - m2 * 2 ^ nat (e2 - e)) e)"

fun times_double :: "double \<Rightarrow> double \<Rightarrow> double" where
  "times_double (Double m1 e1) (Double m2 e2) = normalise (m1 * m2) (e1 + e2)"

instance ..

end

section \<open>Timestamps\<close>

text \<open>
  A \<open>datetime\<close> / pandas \<open>Timestamp\<close> at second resolution. \<open>toordinal\<close> and
  \<open>weekday\<close> follow the standard library: the proleptic Gregorian ordinal, and
  Monday = 0 ... Sunday = 6. \<open>days_before_month\<close> adds the lengths of the months
  before, which is the library's table plus the leap day.
\<close>

record timestamp =
  year :: int
  month :: int
  day :: int
  hour :: int
  minute :: int
  second :: int

definition is_leap :: "int \<Rightarrow> bool" where
  "is_leap y = (y mod 4 = 0 \<and> (y mod 100 \<noteq> 0 \<or> y mod 400 = 0))"

definition days_in_month :: "int \<Rightarrow> int \<Rightarrow> int" where
  "days_in_month y m =
     (if m = 2 then (if is_leap y then 29 else 28)
      else if m = 4 \<or> m = 6 \<or> m = 9 \<or> m = 11 then 30 else 31)"

definition days_before_year :: "int \<Rightarrow> int" where
  "days_before_year y = (let y1 = y - 1 in y1 * 365 + y1 div 4 - y1 div 100 + y1 div 400)"

definition days_before_month :: "int \<Rightarrow> int \<Rightarrow> int" where
  "days_before_month y m =
     sum_list (map (days_in_month y) [1 ..< nat m])"

definition toordinal :: "timestamp \<Rightarrow> int" where
  "toordinal t = days_before_year (year t) + days_before_month (year t) (month t) + day t"

definition weekday :: "timestamp \<Rightarrow> int" where
  "weekday t = (toordinal t + 6) mod 7"

section \<open>Tariff configuration (pricing_config.json)\<close>

text \<open>
  \<open>json.load\<close> gives nested dictionaries; Python dictionaries iterate in insertion
  order, so each is an association list in file order. Keys the code subscripts and the
  file may lack are optional fields. A vendor's entry holds \<open>periods\<close>,
  \<open>supply_charge\<close> and one dictionary per season name, here the field
  \<open>seasons\<close>.
\<close>

record 'n details =
  hours :: "string list option"
  rate :: "'n option"
  solar_rate :: "'n option"

type_synonym 'n vendor_rates = "(string \<times> 'n details) list"

record 'n vendor_config =
  periods :: "(string \<times> int list) list option"
  supply_charge :: "'n option"
  seasons :: "(string \<times> (string \<times> 'n vendor_rates) list) list"

type_synonym 'n pricing_config = "(string \<times> 'n vendor_config) list"

section \<open>pricing.py: PricingManager\<close>

text \<open>
  \<open>_get_season\<close>: the first season whose month list holds the timestamp's month;
  falling off the loop returns Python's \<open>None\<close>. Raises \<open>KeyError\<close> when the
  vendor or its \<open>periods\<close> is missing.
\<close>

fun first_season :: "int \<Rightarrow> (string \<times> int list) list \<Rightarrow> string option" where
  "first_season m [] = None"
| "first_season m ((v, months) # ps) = (if m \<in> set months then Some v else first_season m ps)"

definition get_season :: "'n pricing_config \<Rightarrow> string \<Rightarrow> timestamp \<Rightarrow> error + string option" where
  "get_season cfg vendor ts =
     bind_result (subscript cfg vendor) (\<lambda>vc.
     bind_result (required (periods vc)) (\<lambda>ps.
     Inr (first_season (month ts) ps)))"

text \<open>\<open>start, end = map(int, hour_range.split('-'))\<close>: exactly two integers, or \<open>ValueError\<close>.\<close>

definition parse_range :: "string \<Rightarrow> error + (int \<times> int)" where
  "parse_range hour_range =
     (case split_char (CHR ''-'') hour_range of
        [a, b] \<Rightarrow> bind_result (py_int a) (\<lambda>start. bind_result (py_int b) (\<lambda>end. Inr (start, end)))
      | _ \<Rightarrow> Inl ValueError)"

fun is_hour_in_range :: "int \<Rightarrow> string list \<Rightarrow> error + bool" where
  "is_hour_in_range h [] = Inr False"
| "is_hour_in_range h (hour_range # ranges) =
     (case parse_range hour_range of
        Inl e \<Rightarrow> Inl e
      | Inr (start, end) \<Rightarrow>
          if start < end then
            (if start \<le> h \<and> h < end then Inr True else is_hour_in_range h ranges)
          else
            (if h \<ge> start \<or> h < end then Inr True else is_hour_in_range h ranges))"

text \<open>
  The first lines of \<open>get_rate\<close>, \<open>get_solar_rate\<close> and \<open>get_rate_type\<close> are
  the same: season, day type, then
  \<open>self.pricing_config[vendor][season][day_type]\<close>. Subscripting with the season
  \<open>None\<close> raises \<open>KeyError\<close>, as no JSON key is \<open>None\<close>.
\<close>

definition day_type :: "timestamp \<Rightarrow> string" where
  "day_type ts = (if weekday ts \<ge> 5 then ''weekend'' else ''weekday'')"

definition vendor_rates_at :: "'n pricing_config \<Rightarrow> string \<Rightarrow> timestamp \<Rightarrow> error + 'n vendor_rates" where
  "vendor_rates_at cfg vendor ts =
     bind_result (get_season cfg vendor ts) (\<lambda>season.
     bind_result (subscript cfg vendor) (\<lambda>vc.
     bind_result (case season of None \<Rightarrow> Inl KeyError | Some s \<Rightarrow> subscript (seasons vc) s) (\<lambda>sc.
     subscript sc (day_type ts))))"

fun rate_loop :: "int \<Rightarrow> 'n vendor_rates \<Rightarrow> error + 'n::zero" where
  "rate_loop h [] = Inr 0"
| "rate_loop h ((rate_type, d) # rest) =
     bind_result (required (hours d)) (\<lambda>rs.
     bind_result (is_hour_in_range h rs) (\<lambda>hit.
     if hit then required (rate d) else rate_loop h rest))"

definition get_rate :: "'n pricing_config \<Rightarrow> string \<Rightarrow> timestamp \<Rightarrow> error + 'n::zero" where
  "get_rate cfg vendor ts = bind_result (vendor_rates_at cfg vendor ts) (rate_loop (hour ts))"

fun solar_rate_loop :: "int \<Rightarrow> 'n vendor_rates \<Rightarrow> error + 'n option" where
  "solar_rate_loop h [] = Inr None"
| "solar_rate_loop h ((rate_type, d) # rest) =
     bind_result (required (hours d)) (\<lambda>rs.
     bind_result (is_hour_in_range h rs) (\<lambda>hit.
     if hit then Inr (solar_rate d) else solar_rate_loop h rest))"

definition get_solar_rate :: "'n pricing_config \<Rightarrow> string \<Rightarrow> timestamp \<Rightarrow> error + 'n option" where
  "get_solar_rate cfg vendor ts =
     bind_result (vendor_rates_at cfg vendor ts) (solar_rate_loop (hour ts))"

fun rate_type_loop :: "int \<Rightarrow> 'n vendor_rates \<Rightarrow> error + string" where
  "rate_type_loop h [] = Inr ''off_peak''"
| "rate_type_loop h ((rate_type, d) # rest) =
     bind_result (required (hours d)) (\<lambda>rs.
     bind_result (is_hour_in_range h rs) (\<lambda>hit.
     if hit then Inr rate_type else rate_type_loop h rest))"

definition get_rate_type :: "'n pricing_config \<Rightarrow> string \<Rightarrow> timestamp \<Rightarrow> error + string" where
  "get_rate_type cfg vendor ts =
     bind_result (vendor_rates_at cfg vendor ts) (rate_type_loop (hour ts))"

definition get_supply_charge :: "'n pricing_config \<Rightarrow> string \<Rightarrow> error + 'n" where
  "get_supply_charge cfg vendor =
     bind_result (subscript cfg vendor) (\<lambda>vc. required (supply_charge vc))"

section \<open>The meter-data table\<close>

text \<open>
  One row of \<open>Energy Providers - Raw Data.csv\<close>, with the fifteen columns of
  \<open>csv_columns\<close>. The two date columns hold \<open>'d\<close>: a parsed
  \<open>timestamp\<close> in \<open>MeterDataParser.df\<close>, a cell that may still be text
  inside the downloader. The two value columns hold numbers \<open>'n\<close>.
\<close>

record ('d, 'n) row =
  AccountNumber :: string
  NMI :: string
  DeviceNumber :: string
  DeviceType :: string
  RegisterCode :: string
  RateTypeDescription :: string
  StartDate :: 'd
  Start_Day :: int
  Start_Month :: int
  Start_Quarter :: int
  Start_Year :: int
  EndDate :: 'd
  ProfileReadValue :: 'n
  RegisterReadValue :: 'n
  QualityFlag :: string

type_synonym date = "int \<times> int \<times> int"

definition date_of :: "timestamp \<Rightarrow> date" where
  "date_of t = (year t, month t, day t)"

section \<open>main.py: MeterDataParser\<close>

text \<open>
  \<open>self.df[self.df['StartDate'].dt.date == date.date()]\<close>. In a table without
  rows \<open>read_csv\<close> had no date to parse and the column is no datetime column: the
  \<open>.dt\<close> accessor raises \<open>AttributeError\<close>.
\<close>

definition day_rows :: "(timestamp, 'n) row list \<Rightarrow> date \<Rightarrow> (timestamp, 'n) row list" where
  "day_rows df date = filter (\<lambda>r. date_of (StartDate r) = date) df"

definition date_data :: "(timestamp, 'n) row list \<Rightarrow> date \<Rightarrow> error + (timestamp, 'n) row list" where
  "date_data df date = (if df = [] then Inl AttributeError else Inr (day_rows df date))"

fun cost_loop ::
    "'n pricing_config \<Rightarrow> string \<Rightarrow> (timestamp, 'n) row list \<Rightarrow> 'n \<Rightarrow> error + 'n::{zero,plus,times}" where
  "cost_loop cfg vendor [] total_cost = Inr total_cost"
| "cost_loop cfg vendor (r # rs) total_cost =
     (if RateTypeDescription r = ''Usage'' then
        bind_result (get_rate cfg vendor (StartDate r)) (\<lambda>rate.
        cost_loop cfg vendor rs (total_cost + ProfileReadValue r * rate))
      else cost_loop cfg vendor rs total_cost)"

definition calculate_cost ::
    "(timestamp, 'n) row list \<Rightarrow> 'n pricing_config \<Rightarrow> date \<Rightarrow> string
      \<Rightarrow> error + 'n::{zero,plus,times}" where
  "calculate_cost df cfg date vendor =
     bind_result (date_data df date) (\<lambda>rows. cost_loop cfg vendor rows 0)"

text \<open>
  \<open>row['ProfileReadValue'] * rate\<close> where \<open>rate\<close> came from
  \<open>get_solar_rate\<close>: a float times \<open>None\<close> raises \<open>TypeError\<close>.
\<close>

definition times_optional :: "'n \<Rightarrow> 'n option \<Rightarrow> error + 'n::times" where
  "times_optional v r = (case r of None \<Rightarrow> Inl TypeError | Some x \<Rightarrow> Inr (v * x))"

fun solar_loop ::
    "'n pricing_config \<Rightarrow> string \<Rightarrow> (timestamp, 'n) row list \<Rightarrow> 'n \<Rightarrow> error + 'n::{plus,times}" where
  "solar_loop cfg vendor [] total_credit = Inr total_credit"
| "solar_loop cfg vendor (r # rs) total_credit =
     (if RateTypeDescription r = ''Solar'' then
        bind_result (get_solar_rate cfg vendor (StartDate r)) (\<lambda>rate.
        bind_result (times_optional (ProfileReadValue r) rate) (\<lambda>credit.
        solar_loop cfg vendor rs (total_credit + credit)))
      else solar_loop cfg vendor rs total_credit)"

definition calculate_solar_feedin ::
    "(timestamp, 'n) row list \<Rightarrow> 'n pricing_config \<Rightarrow> date \<Rightarrow> string
      \<Rightarrow> error + 'n::{zero,plus,times}" where
  "calculate_solar_feedin df cfg date vendor =
     bind_result (date_data df date) (\<lambda>rows. solar_loop cfg vendor rows 0)"

subsection \<open>\<open>pd.date_range(start=start_date, end=end_date, freq='D')\<close>\<close>

text \<open>
  The timestamps \<open>start_date + k days\<close> that are not after \<open>end_date\<close>; the
  aggregator only uses the calendar date of each.
\<close>

definition seconds_of :: "timestamp \<Rightarrow> int" where
  "seconds_of t = toordinal t * 86400 + hour t * 3600 + minute t * 60 + second t"

definition next_day :: "date \<Rightarrow> date" where
  "next_day dt =
     (case dt of (y, m, d) \<Rightarrow>
        if d < days_in_month y m then (y, m, d + 1)
        else if m < 12 then (y, m + 1, 1)
        else (y + 1, 1, 1))"

fun days_from :: "date \<Rightarrow> nat \<Rightarrow> date list" where
  "days_from d 0 = []"
| "days_from d (Suc n) = d # days_from (next_day d) n"

definition date_range :: "timestamp \<Rightarrow> timestamp \<Rightarrow> date list" where
  "date_range start_date end_date =
     (if seconds_of start_date \<le> seconds_of end_date
      then days_from (date_of start_date)
             (nat ((seconds_of end_date - seconds_of start_date) div 86400) + 1)
      else [])"

subsection \<open>\<open>calculate_cost_range\<close>\<close>

record 'n cost_range_result =
  daily_costs :: "(date \<times> 'n) list"
  daily_solar :: "(date \<times> 'n) list"
  total_usage_cost :: 'n
  total_solar_credit :: 'n
  total_supply_charges :: 'n
  net_cost :: 'n
  r_start_date :: date
  r_end_date :: date
  total_days :: nat
  r_vendor :: string

text \<open>
  The loop's variables, in the order \<open>daily_costs\<close>, \<open>daily_solar\<close>,
  \<open>total_cost\<close>, \<open>total_solar\<close>, \<open>total_supply_charges\<close>,
  \<open>total_days\<close>.
\<close>

type_synonym 'n cost_range_vars =
  "(date \<times> 'n) list \<times> (date \<times> 'n) list \<times> 'n \<times> 'n \<times> 'n \<times> nat"

fun cost_range_loop ::
    "(timestamp, 'n) row list \<Rightarrow> 'n pricing_config \<Rightarrow> string \<Rightarrow> date list
      \<Rightarrow> 'n cost_range_vars \<Rightarrow> error + ('n::{zero,plus,times}) cost_range_vars" where
  "cost_range_loop df cfg vendor [] vars = Inr vars"
| "cost_range_loop df cfg vendor (date # dates) (dc, ds, tc, ts, tsc, td) =
     bind_result (calculate_cost df cfg date vendor) (\<lambda>usage_cost.
     bind_result (calculate_solar_feedin df cfg date vendor) (\<lambda>solar_credit.
     bind_result (get_supply_charge cfg vendor) (\<lambda>supply_charges.
     cost_range_loop df cfg vendor dates
       (AList.update date usage_cost dc, AList.update date solar_credit ds,
        tc + usage_cost, ts + solar_credit, tsc + supply_charges, td + 1))))"

definition calculate_cost_range ::
    "(timestamp, 'n) row list \<Rightarrow> 'n pricing_config \<Rightarrow> timestamp \<Rightarrow> timestamp \<Rightarrow> string
      \<Rightarrow> error + ('n::{zero,plus,minus,times}) cost_range_result" where
  "calculate_cost_range df cfg start_date end_date vendor =
     bind_result
       (cost_range_loop df cfg vendor (date_range start_date end_date) ([], [], 0, 0, 0, 0))
       (\<lambda>(dc, ds, tc, ts, tsc, td).
          Inr \<lparr>daily_costs = dc, daily_solar = ds, total_usage_cost = tc,
               total_solar_credit = ts, total_supply_charges = tsc,
               net_cost = tc - ts + tsc,
               r_start_date = date_of start_date, r_end_date = date_of end_date,
               total_days = td, r_vendor = vendor\<rparr>)"

subsection \<open>\<open>calculate_detailed_breakdown\<close>\<close>

text \<open>
  \<open>usage_breakdown\<close> has the four keys \<open>peak\<close>, \<open>off_peak\<close>,
  \<open>shoulder\<close> (each \<open>{'kwh', 'cost'}\<close>) and \<open>solar\<close>
  (\<open>{'kwh', 'credit'}\<close>, here \<open>solar_kwh\<close> and \<open>credit\<close>).
\<close>

record 'n bucket =
  kwh :: 'n
  cost :: 'n

record 'n solar_bucket =
  solar_kwh :: 'n
  credit :: 'n

record 'n usage_breakdown =
  peak :: "'n bucket"
  off_peak :: "'n bucket"
  shoulder :: "'n bucket"
  solar :: "'n solar_bucket"

definition add_to_bucket :: "'n bucket \<Rightarrow> 'n \<Rightarrow> 'n \<Rightarrow> ('n::{plus,times}) bucket" where
  "add_to_bucket b v price = \<lparr>kwh = kwh b + v, cost = cost b + v * price\<rparr>"

text \<open>
  \<open>usage_breakdown[rate_type]['kwh'] += v\<close> then
  \<open>usage_breakdown[rate_type]['cost'] += v * rate\<close>. A label that is no key of
  \<open>usage_breakdown\<close> raises \<open>KeyError\<close> at the first statement; the label
  \<open>solar\<close> raises it at the second, as that bucket has no \<open>cost\<close>.
\<close>

definition add_usage ::
    "'n usage_breakdown \<Rightarrow> string \<Rightarrow> 'n \<Rightarrow> 'n \<Rightarrow> error + ('n::{plus,times}) usage_breakdown" where
  "add_usage ub rate_type v price =
     (if rate_type = ''peak'' then Inr (ub\<lparr>peak := add_to_bucket (peak ub) v price\<rparr>)
      else if rate_type = ''off_peak'' then Inr (ub\<lparr>off_peak := add_to_bucket (off_peak ub) v price\<rparr>)
      else if rate_type = ''shoulder'' then Inr (ub\<lparr>shoulder := add_to_bucket (shoulder ub) v price\<rparr>)
      else Inl KeyError)"

definition add_solar ::
    "'n usage_breakdown \<Rightarrow> 'n \<Rightarrow> 'n option \<Rightarrow> error + ('n::{plus,times}) usage_breakdown" where
  "add_solar ub v feed_in =
     bind_result (times_optional v feed_in) (\<lambda>c.
       Inr (ub\<lparr>solar := \<lparr>solar_kwh = solar_kwh (solar ub) + v, credit = credit (solar ub) + c\<rparr>\<rparr>))"

fun breakdown_rows ::
    "'n pricing_config \<Rightarrow> string \<Rightarrow> (timestamp, 'n) row list \<Rightarrow> 'n usage_breakdown
      \<Rightarrow> error + ('n::{zero,plus,times}) usage_breakdown" where
  "breakdown_rows cfg vendor [] ub = Inr ub"
| "breakdown_rows cfg vendor (r # rs) ub =
     (if RateTypeDescription r = ''Usage'' then
        bind_result (get_rate cfg vendor (StartDate r)) (\<lambda>rate.
        bind_result (get_rate_type cfg vendor (StartDate r)) (\<lambda>rate_type.
        bind_result (add_usage ub rate_type (ProfileReadValue r) rate) (\<lambda>ub'.
        breakdown_rows cfg vendor rs ub')))
      else if RateTypeDescription r = ''Solar'' then
        bind_result (get_solar_rate cfg vendor (StartDate r)) (\<lambda>feed_in.
        bind_result (add_solar ub (ProfileReadValue r) feed_in) (\<lambda>ub'.
        breakdown_rows cfg vendor rs ub'))
      else breakdown_rows cfg vendor rs ub)"

text \<open>The day loop's variables: \<open>usage_breakdown\<close>, \<open>total_supply_charges\<close>, \<open>total_days\<close>.\<close>

fun breakdown_days ::
    "(timestamp, 'n) row list \<Rightarrow> 'n pricing_config \<Rightarrow> string \<Rightarrow> date list
      \<Rightarrow> 'n usage_breakdown \<times> 'n \<times> nat
      \<Rightarrow> error + ('n::{zero,plus,times}) usage_breakdown \<times> 'n \<times> nat" where
  "breakdown_days df cfg vendor [] vars = Inr vars"
| "breakdown_days df cfg vendor (date # dates) (ub, tsc, td) =
     bind_result (date_data df date) (\<lambda>rows.
     bind_result (get_supply_charge cfg vendor) (\<lambda>supply_charge.
     bind_result (breakdown_rows cfg vendor rows ub) (\<lambda>ub'.
     breakdown_days df cfg vendor dates (ub', tsc + supply_charge, td + 1))))"

record 'n breakdown_result =
  breakdown :: "'n usage_breakdown"
  total_usage :: 'n
  total_cost :: 'n
  total_supply_charges :: 'n
  sub_total_cost :: 'n
  net_cost :: 'n
  total_days :: nat
  r_start_date :: date
  r_end_date :: date
  r_vendor :: string

definition empty_breakdown :: "('n::zero) usage_breakdown" where
  "empty_breakdown =
     \<lparr>peak = \<lparr>kwh = 0, cost = 0\<rparr>, off_peak = \<lparr>kwh = 0, cost = 0\<rparr>,
      shoulder = \<lparr>kwh = 0, cost = 0\<rparr>, solar = \<lparr>solar_kwh = 0, credit = 0\<rparr>\<rparr>"

text \<open>
  The two sums run over \<open>usage_breakdown.values()\<close> without the periods equal to
  the solar bucket. A \<open>{'kwh', 'cost'}\<close> dictionary never equals the
  \<open>{'kwh', 'credit'}\<close> one, so they add \<open>peak\<close>, \<open>off_peak\<close> and
  \<open>shoulder\<close>, in that order, starting from 0.
\<close>

definition calculate_detailed_breakdown ::
    "(timestamp, 'n) row list \<Rightarrow> 'n pricing_config \<Rightarrow> timestamp \<Rightarrow> timestamp \<Rightarrow> string
      \<Rightarrow> error + ('n::{zero,plus,minus,times}) breakdown_result" where
  "calculate_detailed_breakdown df cfg start_date end_date vendor =
     bind_result
       (breakdown_days df cfg vendor (date_range start_date end_date) (empty_breakdown, 0, 0))
       (\<lambda>(ub, tsc, td).
          let tu = 0 + kwh (peak ub) + kwh (off_peak ub) + kwh (shoulder ub);
              tc = 0 + cost (peak ub) + cost (off_peak ub) + cost (shoulder ub);
              sub_total = tc + tsc
          in Inr \<lparr>breakdown = ub, total_usage = tu, total_cost = tc,
                  total_supply_charges = tsc, sub_total_cost = sub_total,
                  net_cost = sub_total - credit (solar ub),
                  total_days = td,
                  r_start_date = date_of start_date, r_end_date = date_of end_date,
                  r_vendor = vendor\<rparr>)"

section \<open>A small tariff and timestamps for worked examples\<close>

text \<open>
  The spec's scenario: on weekdays \<open>peak = 14-20\<close> at 0.30 and
  \<open>off_peak = 22-14\<close> at 0.20 with a solar rate of 0.10, supply charge 1.00 a day.
  The hours 20 and 21 are in no range, and the \<open>peak\<close> entry has no
  \<open>solar_rate\<close>. The vendor \<open>summer_only\<close> has a season for December to
  February only.
\<close>

definition demo_weekday :: "real vendor_rates" where
  "demo_weekday =
     [(''peak'', \<lparr>hours = Some [''14-20''], rate = Some 0.30, solar_rate = None\<rparr>),
      (''off_peak'', \<lparr>hours = Some [''22-14''], rate = Some 0.20, solar_rate = Some 0.10\<rparr>)]"

definition demo_weekend :: "real vendor_rates" where
  "demo_weekend =
     [(''off_peak'', \<lparr>hours = Some [''0-24''], rate = Some 0.20, solar_rate = Some 0.10\<rparr>)]"

definition demo_config :: "real pricing_config" where
  "demo_config =
     [(''demo'',
       \<lparr>periods = Some [(''all_year'', [1, 2, 3, 4, 5, 6, 7, 8, 9, 10, 11, 12])],
        supply_charge = Some 1.00,
        seasons = [(''all_year'', [(''weekday'', demo_weekday), (''weekend'', demo_weekend)])]\<rparr>),
      (''summer_only'',
       \<lparr>periods = Some [(''summer'', [12, 1, 2])],
        supply_charge = Some 0.90,
        seasons = [(''summer'', [(''weekday'', demo_weekday), (''weekend'', demo_weekend)])]\<rparr>)]"

definition stamp :: "int \<Rightarrow> int \<Rightarrow> int \<Rightarrow> int \<Rightarrow> int \<Rightarrow> timestamp" where
  "stamp y m d h mi = \<lparr>year = y, month = m, day = d, hour = h, minute = mi, second = 0\<rparr>"

text \<open>A usage reading on 2 July 2024, a month outside every season of \<open>summer_only\<close>.\<close>

definition july_usage :: "(timestamp, real) row" where
  "july_usage =
     \<lparr>AccountNumber = ''56185416'', NMI = ''41032871534'', DeviceNumber = ''700813815'',
      DeviceType = ''COMMS4D'', RegisterCode = ''13815#E1'', RateTypeDescription = ''Usage'',
      StartDate = stamp 2024 7 2 15 0, Start_Day = 2, Start_Month = 7, Start_Quarter = 3,
      Start_Year = 2024, EndDate = stamp 2024 7 2 15 30, ProfileReadValue = 2.0,
      RegisterReadValue = 0, QualityFlag = ''A''\<rparr>"

text \<open>
  The same weekday tariff in Python floats, with a usage reading of 0.5 kWh at 15:00 and a
  solar reading of 0.5 kWh at 12:00 on Tuesday 15 October 2024. Each literal is the double
  nearest to the decimal, as \<open>json.load\<close> and \<open>read_csv\<close> give it
  (\<open>float.hex\<close> shows the 53 bits): 0.30 is \<open>0x1.3333333333333p-2\<close>, 0.20
  is \<open>0x1.999999999999ap-3\<close>, 0.10 is \<open>0x1.999999999999ap-4\<close>, 1.0 is
  \<open>0x1.0p+0\<close> and 0.5 is \<open>0x1.0p-1\<close>.
\<close>

definition float_0_30 :: double where
  "float_0_30 = Double 5404319552844595 (- 54)"

definition float_0_20 :: double where
  "float_0_20 = Double 7205759403792794 (- 55)"

definition float_0_10 :: double where
  "float_0_10 = Double 7205759403792794 (- 56)"

definition float_1_0 :: double where
  "float_1_0 = Double 4503599627370496 (- 52)"

definition float_0_5 :: double where
  "float_0_5 = Double 4503599627370496 (- 53)"





section \<open>Notions used to state the billing properties\<close>

text \<open>
  A tariff is well formed for a vendor when the vendor has a supply charge, every month
  1..12 falls in a season of \<open>periods\<close>, that season has a \<open>weekday\<close> and a
  \<open>weekend\<close> table, and every entry of both is named \<open>peak\<close>,
  \<open>off_peak\<close> or \<open>shoulder\<close>, has a \<open>rate\<close>, and has hour ranges
  that all read as two integers.
\<close>

definition bucket_names :: "string list" where
  "bucket_names = [''peak'', ''off_peak'', ''shoulder'']"

definition range_ok :: "string \<Rightarrow> bool" where
  "range_ok r = (case parse_range r of Inl e \<Rightarrow> False | Inr p \<Rightarrow> True)"

definition entry_ok :: "string \<times> 'n details \<Rightarrow> bool" where
  "entry_ok e =
     (fst e \<in> set bucket_names \<and> rate (snd e) \<noteq> None
      \<and> (case hours (snd e) of None \<Rightarrow> False | Some rs \<Rightarrow> list_all range_ok rs))"

definition rates_ok :: "(string \<times> 'n vendor_rates) list \<Rightarrow> string \<Rightarrow> bool" where
  "rates_ok sc dt = (case map_of sc dt of None \<Rightarrow> False | Some vr \<Rightarrow> list_all entry_ok vr)"

definition month_ok :: "'n vendor_config \<Rightarrow> (string \<times> int list) list \<Rightarrow> int \<Rightarrow> bool" where
  "month_ok vc ps m =
     (case first_season m ps of
        None \<Rightarrow> False
      | Some s \<Rightarrow>
          (case map_of (seasons vc) s of
             None \<Rightarrow> False
           | Some sc \<Rightarrow> rates_ok sc ''weekday'' \<and> rates_ok sc ''weekend''))"

definition well_formed :: "'n pricing_config \<Rightarrow> string \<Rightarrow> bool" where
  "well_formed cfg vendor =
     (case map_of cfg vendor of
        None \<Rightarrow> False
      | Some vc \<Rightarrow>
          supply_charge vc \<noteq> None
          \<and> (case periods vc of
               None \<Rightarrow> False
             | Some ps \<Rightarrow> list_all (month_ok vc ps) [1, 2, 3, 4, 5, 6, 7, 8, 9, 10, 11, 12]))"

text \<open>
  The \<open>Usage\<close> readings among some rows and the \<open>Solar\<close> ones; the usage
  readings that \<open>get_rate_type\<close> gives one label; the cost of a reading at the
  rate \<open>get_rate\<close> gives it and its credit at the rate \<open>get_solar_rate\<close>
  gives it; and, in exact arithmetic, the energy, the cost and the credit of some
  readings.
\<close>

definition usage_readings :: "('d, 'n) row list \<Rightarrow> ('d, 'n) row list" where
  "usage_readings rows = filter (\<lambda>r. RateTypeDescription r = ''Usage'') rows"

definition solar_readings :: "('d, 'n) row list \<Rightarrow> ('d, 'n) row list" where
  "solar_readings rows = filter (\<lambda>r. RateTypeDescription r = ''Solar'') rows"

definition labelled ::
    "'n pricing_config \<Rightarrow> string \<Rightarrow> string \<Rightarrow> (timestamp, 'n) row list \<Rightarrow> (timestamp, 'n) row list" where
  "labelled cfg vendor name rows =
     filter (\<lambda>r. get_rate_type cfg vendor (StartDate r) = Inr name) (usage_readings rows)"


definition reading_cost ::
    "'n pricing_config \<Rightarrow> string \<Rightarrow> (timestamp, 'n) row \<Rightarrow> 'n::{zero,times}" where
  "reading_cost cfg vendor r =
     (case get_rate cfg vendor (StartDate r) of Inl e \<Rightarrow> 0 | Inr p \<Rightarrow> ProfileReadValue r * p)"


definition reading_credit ::
    "'n pricing_config \<Rightarrow> string \<Rightarrow> (timestamp, 'n) row \<Rightarrow> 'n::{zero,times}" where
  "reading_credit cfg vendor r =
     (case get_solar_rate cfg vendor (StartDate r) of
        Inr (Some x) \<Rightarrow> ProfileReadValue r * x
      | _ \<Rightarrow> 0)"


text \<open>The rows the day loop visits, in the order it visits them.\<close>

definition rows_of_days :: "(timestamp, 'n) row list \<Rightarrow> date list \<Rightarrow> (timestamp, 'n) row list" where
  "rows_of_days df dates = concat (map (day_rows df) dates)"








text \<open>
  The same in any arithmetic, where the order of a sum matters: each bucket of
  \<open>ub'\<close> is what \<open>ub\<close> held with the readings of its label added one by one,
  in the order of the rows.
\<close>

definition buckets_fold ::
    "'n pricing_config \<Rightarrow> string \<Rightarrow> 'n usage_breakdown \<Rightarrow> 'n usage_breakdown
      \<Rightarrow> (timestamp, 'n::{zero,plus,times}) row list \<Rightarrow> bool" where
  "buckets_fold cfg vendor ub ub' rows \<longleftrightarrow>
     kwh (peak ub')
       = foldl (+) (kwh (peak ub)) (map ProfileReadValue (labelled cfg vendor ''peak'' rows))
     \<and> cost (peak ub')
         = foldl (+) (cost (peak ub)) (map (reading_cost cfg vendor) (labelled cfg vendor ''peak'' rows))
     \<and> kwh (off_peak ub')
         = foldl (+) (kwh (off_peak ub)) (map ProfileReadValue (labelled cfg vendor ''off_peak'' rows))
     \<and> cost (off_peak ub')
         = foldl (+) (cost (off_peak ub))
             (map (reading_cost cfg vendor) (labelled cfg vendor ''off_peak'' rows))
     \<and> kwh (shoulder ub')
         = foldl (+) (kwh (shoulder ub)) (map ProfileReadValue (labelled cfg vendor ''shoulder'' rows))
     \<and> cost (shoulder ub')
         = foldl (+) (cost (shoulder ub))
             (map (reading_cost cfg vendor) (labelled cfg vendor ''shoulder'' rows))
     \<and> solar_kwh (solar ub')
         = foldl (+) (solar_kwh (solar ub)) (map ProfileReadValue (solar_readings rows))
     \<and> credit (solar ub')
         = foldl (+) (credit (solar ub)) (map (reading_credit cfg vendor) (solar_readings rows))"



definition peak_solar :: "(timestamp, real) row" where
  "peak_solar =
     \<lparr>AccountNumber = ''56185416'', NMI = ''41032871534'', DeviceNumber = ''700813815'',
      DeviceType = ''COMMS4D'', RegisterCode = ''13815#B1'', RateTypeDescription = ''Solar'',
      StartDate = stamp 2024 10 15 15 0, Start_Day = 15, Start_Month = 10, Start_Quarter = 4,
      Start_Year = 2024, EndDate = stamp 2024 10 15 15 30, ProfileReadValue = 1.0,
      RegisterReadValue = 0, QualityFlag = ''A''\<rparr>"

section \<open>aemo_data_downloader.py: AEMODataDownloader\<close>

subsection \<open>Date cells, in the file and in a DataFrame\<close>

text \<open>
  The text of a date cell of the CSV file, kept by its format and the instant it
  denotes: \<open>DMY t\<close> is \<open>t\<close> written \<open>DD/MM/YYYY HH:MM:SS\<close>, the
  format \<open>_convert_nem12_to_csv_format\<close> writes with \<open>strftime\<close> and every
  reader parses; \<open>ISO t\<close> is \<open>t\<close> written \<open>YYYY-MM-DD HH:MM:SS\<close>,
  the \<open>str\<close> of a pandas \<open>Timestamp\<close>; \<open>Other\<close> is any other text.
  A date cell of a DataFrame is such a text, or a \<open>Timestamp\<close> object once a
  column has been through \<open>pd.to_datetime\<close>.
\<close>

datatype date_text = DMY timestamp | ISO timestamp | Other string

datatype cell = Str date_text | Stamp timestamp

text \<open>
  \<open>pd.to_datetime(column, format='%d/%m/%Y %H:%M:%S')\<close> (pandas 2, which the
  \<open>date_format\<close> argument of \<open>MeterDataParser\<close> needs): text must match the
  format exactly or \<open>ValueError\<close> is raised; a \<open>Timestamp\<close> passes
  through. One failing cell fails the column.
\<close>

fun to_datetime :: "cell \<Rightarrow> error + timestamp" where
  "to_datetime (Str (DMY t)) = Inr t"
| "to_datetime (Str (ISO t)) = Inl ValueError"
| "to_datetime (Str (Other s)) = Inl ValueError"
| "to_datetime (Stamp t) = Inr t"

fun to_datetime_column :: "cell list \<Rightarrow> error + timestamp list" where
  "to_datetime_column [] = Inr []"
| "to_datetime_column (c # cs) =
     bind_result (to_datetime c) (\<lambda>t.
     bind_result (to_datetime_column cs) (\<lambda>ts. Inr (t # ts)))"

definition map_dates :: "('a \<Rightarrow> 'b) \<Rightarrow> ('a, 'n) row \<Rightarrow> ('b, 'n) row" where
  "map_dates f r =
     \<lparr>AccountNumber = AccountNumber r, NMI = NMI r, DeviceNumber = DeviceNumber r,
      DeviceType = DeviceType r, RegisterCode = RegisterCode r,
      RateTypeDescription = RateTypeDescription r, StartDate = f (StartDate r),
      Start_Day = Start_Day r, Start_Month = Start_Month r, Start_Quarter = Start_Quarter r,
      Start_Year = Start_Year r, EndDate = f (EndDate r),
      ProfileReadValue = ProfileReadValue r, RegisterReadValue = RegisterReadValue r,
      QualityFlag = QualityFlag r\<rparr>"

text \<open>
  \<open>pd.read_csv(path)\<close> infers a type for each column. A column whose every cell is
  a whole number written in digits (and that fits 64 bits) becomes \<open>int64\<close>: such a
  cell prints, through \<open>astype(str)\<close> and \<open>to_csv\<close>, without leading zeros, and
  it sorts as a number. A column of other words stays text. The columns of the incoming
  frame are built by \<open>_convert_nem12_to_csv_format\<close> from Python strings and are text
  whatever they hold. The rows keep the printed form of each cell; whether the
  \<open>NMI\<close> and \<open>RegisterCode\<close> cells of a row are numbers is kept beside
  the row, for the sort. The model knows whole numbers and words, the cells this program
  and its sample data hold: a column of decimals or of booleans, and a column that mixes
  numbers or words with missing cells, are kept as text here and are outside it.
\<close>

definition number_value :: "string \<Rightarrow> int" where
  "number_value s = foldl (\<lambda>n c. n * 10 + digit_val c) 0 s"

definition whole_number :: "string \<Rightarrow> bool" where
  "whole_number s = (s \<noteq> [] \<and> list_all is_digit s \<and> number_value s < 2 ^ 63)"

definition int_column :: "string list \<Rightarrow> bool" where
  "int_column col = (col \<noteq> [] \<and> list_all whole_number col)"

definition number_text :: "string \<Rightarrow> string" where
  "number_text s = (case dropWhile (\<lambda>c. c = CHR ''0'') s of [] \<Rightarrow> ''0'' | t \<Rightarrow> t)"

definition read_column :: "string list \<Rightarrow> string \<Rightarrow> string" where
  "read_column col s = (if int_column col then number_text s else s)"

definition read_row :: "('d, 'n) row list \<Rightarrow> ('d, 'n) row \<Rightarrow> ('d, 'n) row" where
  "read_row table r =
     r\<lparr>AccountNumber := read_column (map AccountNumber table) (AccountNumber r),
       NMI := read_column (map NMI table) (NMI r),
       DeviceNumber := read_column (map DeviceNumber table) (DeviceNumber r),
       DeviceType := read_column (map DeviceType table) (DeviceType r),
       RegisterCode := read_column (map RegisterCode table) (RegisterCode r),
       RateTypeDescription := read_column (map RateTypeDescription table) (RateTypeDescription r),
       QualityFlag := read_column (map QualityFlag table) (QualityFlag r)\<rparr>"

definition infer_columns :: "('d, 'n) row list \<Rightarrow> ('d, 'n) row list" where
  "infer_columns rows = map (read_row rows) rows"

text \<open>
  Without \<open>parse_dates\<close> the date columns stay text. \<open>to_csv\<close> writes text as
  it is and a \<open>Timestamp\<close> by its \<open>str\<close>.
\<close>

definition read_csv :: "(date_text, real) row list \<Rightarrow> (cell, real) row list" where
  "read_csv rows = map (map_dates Str) (infer_columns rows)"

fun csv_text :: "cell \<Rightarrow> date_text" where
  "csv_text (Str x) = x"
| "csv_text (Stamp t) = ISO t"

definition to_csv :: "(cell, real) row list \<Rightarrow> (date_text, real) row list" where
  "to_csv rows = map (map_dates csv_text) rows"

subsection \<open>The duplicate key and the sort\<close>

text \<open>
  \<open>NMI.astype(str) + '_' + RegisterCode.astype(str) + '_' + StartDate.dt.strftime('%Y%m%d%H%M')\<close>.
  A pandas timestamp has a four-digit year, so \<open>%Y\<close> is four digits and the other
  fields two.
\<close>

definition digit_char :: "nat \<Rightarrow> char" where
  "digit_char n = ''0123456789'' ! (n mod 10)"

definition pad2 :: "int \<Rightarrow> string" where
  "pad2 n = [digit_char (nat n div 10), digit_char (nat n)]"

definition pad4 :: "int \<Rightarrow> string" where
  "pad4 n = [digit_char (nat n div 1000), digit_char (nat n div 100),
             digit_char (nat n div 10), digit_char (nat n)]"

definition strftime_key :: "timestamp \<Rightarrow> string" where
  "strftime_key t = pad4 (year t) @ pad2 (month t) @ pad2 (day t) @ pad2 (hour t) @ pad2 (minute t)"

definition key_text :: "string \<Rightarrow> string \<Rightarrow> timestamp \<Rightarrow> string" where
  "key_text nmi register_code t = nmi @ ''_'' @ register_code @ ''_'' @ strftime_key t"

definition make_key :: "(cell, real) row \<Rightarrow> timestamp \<Rightarrow> string" where
  "make_key r t = key_text (NMI r) (RegisterCode r) t"

text \<open>
  \<open>sort_values(['NMI', 'RegisterCode', 'StartDate_dt'])\<close>: numbers compare by
  value, strings lexicographically, and in a column that holds both, as the combined
  frame does when the stored column was read as numbers, pandas puts the numbers before
  the strings. Timestamps compare chronologically; rows with equal keys keep their order.
  A frame is a list of rows, each with the two marks (is its \<open>NMI\<close> a number, is
  its \<open>RegisterCode\<close> a number).
\<close>

definition ts_tuple :: "timestamp \<Rightarrow> int \<times> int \<times> int \<times> int \<times> int \<times> int" where
  "ts_tuple t = (year t, month t, day t, hour t, minute t, second t)"

type_synonym frame = "((cell, real) row \<times> bool \<times> bool) list"

definition rank :: "bool \<Rightarrow> string \<Rightarrow> nat \<times> int \<times> string" where
  "rank is_number s = (if is_number then (0, number_value s, []) else (1, 0, s))"

definition sort_values :: "frame \<Rightarrow> timestamp list \<Rightarrow> (cell, real) row list" where
  "sort_values rows dts =
     map (\<lambda>((r, n, c), t). r)
       (sort_key (\<lambda>((r, n, c), t). (rank n (NMI r), rank c (RegisterCode r), ts_tuple t))
          (zip rows dts))"

subsection \<open>\<open>_append_to_csv\<close>\<close>

text \<open>
  The canonical file is \<open>None\<close> when the path does not exist, else its rows. The
  method returns \<open>(success, message)\<close>; of a message only its kind and count are
  kept: \<open>No new unique records to add\<close>,
  \<open>Successfully saved n new records\<close>, \<open>Error saving data: ...\<close>.
\<close>

datatype message = NoNewUnique | SavedRecords nat | ErrorSaving error

type_synonym csv_file = "(date_text, real) row list option"

text \<open>
  Lines 251 to 277: load the existing rows and turn their two date columns into
  timestamps (in place), key both frames, drop the incoming rows whose key is among the
  existing keys, return early when none is left, else concatenate. With no file the
  incoming frame is taken as it is. The result is \<open>None\<close> for the early return,
  else the combined frame and \<open>len(new_data)\<close>.
\<close>

definition combine :: "csv_file \<Rightarrow> (cell, real) row list \<Rightarrow> error + (frame \<times> nat) option" where
  "combine file new_data =
     (case file of
        Some rows \<Rightarrow>
          (let existing_data = read_csv rows in
           bind_result (to_datetime_column (map StartDate existing_data)) (\<lambda>sd.
           bind_result (to_datetime_column (map EndDate existing_data)) (\<lambda>ed.
           let existing_data =
                 map (\<lambda>(r, s, e). r\<lparr>StartDate := Stamp s, EndDate := Stamp e\<rparr>)
                   (zip existing_data (zip sd ed));
               existing_keys = map (\<lambda>(r, s). make_key r s) (zip existing_data sd)
           in
           bind_result (to_datetime_column (map StartDate new_data)) (\<lambda>nd.
           let new_data = map fst (filter (\<lambda>(r, t). make_key r t \<notin> set existing_keys) (zip new_data nd))
           in if new_data = [] then Inr None
              else Inr (Some (map (\<lambda>r. (r, int_column (map NMI rows),
                                           int_column (map RegisterCode rows))) existing_data
                              @ map (\<lambda>r. (r, False, False)) new_data,
                              length new_data))))))
      | None \<Rightarrow> Inr (Some (map (\<lambda>r. (r, False, False)) new_data, length new_data)))"

text \<open>Lines 279 to 282: parse the combined \<open>StartDate\<close> column and sort.\<close>

definition sorted_frame :: "csv_file \<Rightarrow> (cell, real) row list \<Rightarrow> error + ((cell, real) row list \<times> nat) option" where
  "sorted_frame file new_data =
     bind_result (combine file new_data) (\<lambda>c.
       case c of
         None \<Rightarrow> Inr None
       | Some (combined_data, n) \<Rightarrow>
           bind_result (to_datetime_column (map (\<lambda>(r, n, c). StartDate r) combined_data)) (\<lambda>dts.
           Inr (Some (sort_values combined_data dts, n))))"

text \<open>
  Line 285 writes straight to the canonical path: \<open>to_csv\<close> opens it for writing,
  which empties it, and then writes the rows. The first argument is the environment:
  \<open>None\<close> when the write completes, \<open>Some k\<close> when it raises \<open>OSError\<close>
  (a full disk, say) after \<open>k\<close> rows have reached the file. Every exception of the
  body is caught at line 289 and reported as \<open>(False, 'Error saving data: ...')\<close>.
\<close>

definition append_to_csv ::
    "nat option \<Rightarrow> csv_file \<Rightarrow> (cell, real) row list \<Rightarrow> (bool \<times> message) \<times> csv_file" where
  "append_to_csv fault file new_data =
     (case sorted_frame file new_data of
        Inl e \<Rightarrow> ((False, ErrorSaving e), file)
      | Inr None \<Rightarrow> ((True, NoNewUnique), file)
      | Inr (Some (combined_data, n)) \<Rightarrow>
          (case fault of
             None \<Rightarrow> ((True, SavedRecords n), Some (to_csv combined_data))
           | Some k \<Rightarrow> ((False, ErrorSaving OSError), Some (take k (to_csv combined_data)))))"

section \<open>Notions used to state the merge properties\<close>

text \<open>
  The instant a date text denotes, in either format: \<open>instant\<close> reads more than
  the code's parser \<open>to_datetime\<close> does, and serves to name the reading a row stands
  for whatever the format of its dates. A row read that way is a meter reading; an
  incoming row is read through the text it would be written as. The identity key is the
  NMI, the register code and the start time cut to the minute; \<open>code_key\<close> is the
  text the code compares.
\<close>

fun instant :: "date_text \<Rightarrow> timestamp option" where
  "instant (DMY t) = Some t"
| "instant (ISO t) = Some t"
| "instant (Other s) = None"

definition meter_reading :: "(date_text, real) row \<Rightarrow> (timestamp option, real) row" where
  "meter_reading r = map_dates instant r"

definition incoming_reading :: "(cell, real) row \<Rightarrow> (timestamp option, real) row" where
  "incoming_reading r = meter_reading (map_dates csv_text r)"

definition minute_of :: "timestamp \<Rightarrow> int \<times> int \<times> int \<times> int \<times> int" where
  "minute_of t = (year t, month t, day t, hour t, minute t)"

definition identity_key ::
    "(timestamp option, real) row \<Rightarrow> (string \<times> string \<times> int \<times> int \<times> int \<times> int \<times> int) option" where
  "identity_key r = map_option (\<lambda>t. (NMI r, RegisterCode r, minute_of t)) (StartDate r)"

definition code_key :: "(timestamp option, real) row \<Rightarrow> string option" where
  "code_key r = map_option (key_text (NMI r) (RegisterCode r)) (StartDate r)"

definition stored_readings :: "csv_file \<Rightarrow> (timestamp option, real) row list" where
  "stored_readings file = (case file of None \<Rightarrow> [] | Some rows \<Rightarrow> map meter_reading rows)"

text \<open>
  The stored readings as \<open>read_csv\<close> loads them (number columns printed as
  numbers), the incoming readings whose key is not among theirs, and the stores whose
  two key columns are not read as numbers (a missing store among them).
\<close>

definition loaded_readings :: "csv_file \<Rightarrow> (timestamp option, real) row list" where
  "loaded_readings file =
     (case file of None \<Rightarrow> [] | Some rows \<Rightarrow> map meter_reading (infer_columns rows))"

definition accepted :: "csv_file \<Rightarrow> (cell, real) row list \<Rightarrow> (timestamp option, real) row list" where
  "accepted file new_data =
     filter (\<lambda>r. code_key r \<notin> set (map code_key (loaded_readings file)))
       (map incoming_reading new_data)"

definition text_keys :: "csv_file \<Rightarrow> bool" where
  "text_keys file =
     (case file of
        None \<Rightarrow> True
      | Some rows \<Rightarrow> \<not> int_column (map NMI rows) \<and> \<not> int_column (map RegisterCode rows))"

definition file_sort_key ::
    "(date_text, real) row \<Rightarrow> string \<times> string \<times> int \<times> int \<times> int \<times> int \<times> int \<times> int" where
  "file_sort_key r =
     (NMI r, RegisterCode r,
      case instant (StartDate r) of Some t \<Rightarrow> ts_tuple t | None \<Rightarrow> (0, 0, 0, 0, 0, 0))"

text \<open>
  Readings of the sample meter, as \<open>_convert_nem12_to_csv_format\<close> builds them:
  two half-hour intervals of channel E1 on 4 November 2021, and the first interval again
  with another value.
\<close>

definition reading :: "string \<Rightarrow> string \<Rightarrow> timestamp \<Rightarrow> timestamp \<Rightarrow> real \<Rightarrow> (cell, real) row" where
  "reading reg kind s e v =
     \<lparr>AccountNumber = '''', NMI = ''41032871534'', DeviceNumber = ''700813815'',
      DeviceType = ''COMMS4D'', RegisterCode = reg, RateTypeDescription = kind,
      StartDate = Str (DMY s), Start_Day = day s, Start_Month = month s,
      Start_Quarter = (month s - 1) div 3 + 1, Start_Year = year s,
      EndDate = Str (DMY e), ProfileReadValue = v, RegisterReadValue = 0, QualityFlag = ''A''\<rparr>"

definition reading_a :: "(cell, real) row" where
  "reading_a = reading ''700813815#E1'' ''Usage'' (stamp 2021 11 4 0 0) (stamp 2021 11 4 0 30) 0.174"

definition reading_b :: "(cell, real) row" where
  "reading_b = reading ''700813815#E1'' ''Usage'' (stamp 2021 11 4 0 30) (stamp 2021 11 4 1 0) 0.2"

definition reading_a_changed :: "(cell, real) row" where
  "reading_a_changed = reading ''700813815#E1'' ''Usage'' (stamp 2021 11 4 0 0) (stamp 2021 11 4 0 30) 9.9"

text \<open>
  The existing frame after lines 254 and 255: both date columns hold timestamps.
\<close>

definition rewritten :: "(date_text, real) row list \<Rightarrow> timestamp list \<Rightarrow> timestamp list \<Rightarrow> (cell, real) row list" where
  "rewritten rows sd ed =
     map (\<lambda>(r, s, e). r\<lparr>StartDate := Stamp s, EndDate := Stamp e\<rparr>) (zip (read_csv rows) (zip sd ed))"

text \<open>The sample readings as they sit in the existing frame after lines 254 and 255.\<close>

definition reading_a_rewritten :: "(cell, real) row" where
  "reading_a_rewritten =
     reading_a\<lparr>StartDate := Stamp (stamp 2021 11 4 0 0), EndDate := Stamp (stamp 2021 11 4 0 30)\<rparr>"

definition reading_b_rewritten :: "(cell, real) row" where
  "reading_b_rewritten =
     reading_b\<lparr>StartDate := Stamp (stamp 2021 11 4 0 30), EndDate := Stamp (stamp 2021 11 4 1 0)\<rparr>"

section \<open>Properties of the tariff resolver\<close>

subsection \<open>Basic facts\<close>

lemma bind_result_Inl [simp]: "bind_result (Inl e) f = Inl e"
  by (simp add: bind_result_def)

lemma bind_result_Inr [simp]: "bind_result (Inr x) f = f x"
  by (simp add: bind_result_def)

lemma subscript_Some [simp]: "map_of d k = Some v \<Longrightarrow> subscript d k = Inr v"
  by (simp add: subscript_def)

lemma subscript_None [simp]: "map_of d k = None \<Longrightarrow> subscript d k = Inl KeyError"
  by (simp add: subscript_def)

lemma required_simps [simp]: "required None = Inl KeyError" "required (Some x) = Inr x"
  by (simp_all add: required_def)

lemma stamp_fields [simp]:
  "year (stamp y m d h mi) = y" "month (stamp y m d h mi) = m" "day (stamp y m d h mi) = d"
  "hour (stamp y m d h mi) = h" "minute (stamp y m d h mi) = mi" "second (stamp y m d h mi) = 0"
  by (simp_all add: stamp_def)

text \<open>15 October 2024 is a Tuesday.\<close>

lemma day_type_tuesday: "day_type (stamp 2024 10 15 h mi) = ''weekday''"
proof -
  have "toordinal (stamp 2024 10 15 h mi) = toordinal (stamp 2024 10 15 0 0)"
    by (simp add: toordinal_def)
  moreover have "toordinal (stamp 2024 10 15 0 0) = 739174"
    by code_simp
  ultimately show ?thesis
    by (simp add: day_type_def weekday_def)
qed

lemma demo_rates_tuesday:
  "vendor_rates_at demo_config ''demo'' (stamp 2024 10 15 h mi) = Inr demo_weekday"
  by (simp add: vendor_rates_at_def get_season_def demo_config_def day_type_tuesday)

lemma parse_range_14_20: "parse_range ''14-20'' = Inr (14, 20)"
  by (simp add: parse_range_def py_int_def strip_def is_space_def is_digit_def digit_val_def)

lemma parse_range_22_14: "parse_range ''22-14'' = Inr (22, 14)"
  by (simp add: parse_range_def py_int_def strip_def is_space_def is_digit_def digit_val_def)




subsection \<open>Hour ranges\<close>

lemma split_char_none: "sep \<notin> set b \<Longrightarrow> split_char sep b = [b]"
  by (induction b) auto

lemma split_char_join: "sep \<notin> set a \<Longrightarrow> split_char sep (a @ sep # b) = a # split_char sep b"
  by (induction a) auto

lemma parse_range_join:
  assumes "CHR ''-'' \<notin> set a" and "CHR ''-'' \<notin> set b"
    and "py_int a = Inr s" and "py_int b = Inr e"
  shows "parse_range (a @ ''-'' @ b) = Inr (s, e)"
  using assms by (simp add: parse_range_def split_char_join split_char_none bind_result_def)

lemma parse_range_22_8: "parse_range ''22-8'' = Inr (22, 8)"
  by (simp add: parse_range_def py_int_def strip_def is_space_def is_digit_def digit_val_def
      bind_result_def)

lemma parse_range_9_17: "parse_range ''9-17'' = Inr (9, 17)"
  by (simp add: parse_range_def py_int_def strip_def is_space_def is_digit_def digit_val_def
      bind_result_def)

text \<open>
  Claim C7. A configured range is the text of two integers joined by a hyphen. For every
  hour, \<open>_is_hour_in_range\<close> on the range \<open>start-end\<close> answers
  \<open>start \<le> hour < end\<close> when \<open>start < end\<close>, and \<open>hour \<ge> start or hour < end\<close>
  when \<open>start \<ge> end\<close> (the range wraps past midnight). Among the hours 0..23 the
  range \<open>22-8\<close> holds exactly 0..7, 22 and 23, and \<open>9-17\<close> holds exactly 9..16.
\<close>

theorem hour_range_containment:
  assumes "CHR ''-'' \<notin> set a" and "CHR ''-'' \<notin> set b"
    and "py_int a = Inr start" and "py_int b = Inr end"
  shows "is_hour_in_range h [a @ ''-'' @ b] =
           Inr (if start < end then start \<le> h \<and> h < end else h \<ge> start \<or> h < end)
         \<and> [h \<leftarrow> [0..23]. is_hour_in_range h [''22-8''] = Inr True]
             = [0, 1, 2, 3, 4, 5, 6, 7, 22, 23]
         \<and> [h \<leftarrow> [0..23]. is_hour_in_range h [''22-8''] = Inr False]
             = [8, 9, 10, 11, 12, 13, 14, 15, 16, 17, 18, 19, 20, 21]
         \<and> [h \<leftarrow> [0..23]. is_hour_in_range h [''9-17''] = Inr True]
             = [9, 10, 11, 12, 13, 14, 15, 16]
         \<and> [h \<leftarrow> [0..23]. is_hour_in_range h [''9-17''] = Inr False]
             = [0, 1, 2, 3, 4, 5, 6, 7, 8, 17, 18, 19, 20, 21, 22, 23]"
proof -
  have general: "is_hour_in_range h [a @ ''-'' @ b] =
      Inr (if start < end then start \<le> h \<and> h < end else h \<ge> start \<or> h < end)"
    using parse_range_join [OF assms] by auto
  have wrap_in: "[h \<leftarrow> [0..23]. is_hour_in_range h [''22-8''] = Inr True]
      = [0, 1, 2, 3, 4, 5, 6, 7, 22, 23]"
    by (simp add: parse_range_22_8 upto.simps)
  have wrap_out: "[h \<leftarrow> [0..23]. is_hour_in_range h [''22-8''] = Inr False]
      = [8, 9, 10, 11, 12, 13, 14, 15, 16, 17, 18, 19, 20, 21]"
    by (simp add: parse_range_22_8 upto.simps)
  have day_in: "[h \<leftarrow> [0..23]. is_hour_in_range h [''9-17''] = Inr True]
      = [9, 10, 11, 12, 13, 14, 15, 16]"
    by (simp add: parse_range_9_17 upto.simps)
  have day_out: "[h \<leftarrow> [0..23]. is_hour_in_range h [''9-17''] = Inr False]
      = [0, 1, 2, 3, 4, 5, 6, 7, 8, 17, 18, 19, 20, 21, 22, 23]"
    by (simp add: parse_range_9_17 upto.simps)
  from general wrap_in wrap_out day_in day_out show ?thesis by blast
qed

theorem hour_range_containment_witness:
  "CHR ''-'' \<notin> set ''22'' \<and> CHR ''-'' \<notin> set ''8''
   \<and> py_int ''22'' = Inr 22 \<and> py_int ''8'' = Inr 8
   \<and> is_hour_in_range 23 [''22-8''] = Inr True
   \<and> is_hour_in_range 8 [''22-8''] = Inr False"
proof -
  have a: "CHR ''-'' \<notin> set ''22''" and b: "CHR ''-'' \<notin> set ''8''"
    by simp_all
  have pa: "py_int ''22'' = Inr 22" and pb: "py_int ''8'' = Inr 8"
    by (simp_all add: py_int_def strip_def is_space_def is_digit_def digit_val_def)
  from hour_range_containment [OF a b pa pb, of 23] hour_range_containment [OF a b pa pb, of 8]
  have "is_hour_in_range 23 [''22-8''] = Inr True" and "is_hour_in_range 8 [''22-8''] = Inr False"
    by simp_all
  with a b pa pb show ?thesis by blast
qed

subsection \<open>Season lookup and missing configuration\<close>

lemma first_season_None:
  "first_season m ps = None \<longleftrightarrow> (\<forall>(s, months) \<in> set ps. m \<notin> set months)"
  by (induction ps) (auto split: if_splits)

lemma vendor_rates_at_no_season:
  assumes "map_of cfg vendor = Some vc" and "periods vc = Some ps"
    and "\<forall>(s, months) \<in> set ps. month ts \<notin> set months"
  shows "vendor_rates_at cfg vendor ts = Inl KeyError"
proof -
  have "first_season (month ts) ps = None"
    using assms(3) by (simp add: first_season_None)
  then show ?thesis
    using assms(1,2) by (simp add: vendor_rates_at_def get_season_def)
qed

lemma vendor_rates_at_no_vendor:
  "map_of cfg vendor = None \<Longrightarrow> vendor_rates_at cfg vendor ts = Inl KeyError"
  by (simp add: vendor_rates_at_def get_season_def)

lemma get_rate_no_vendor: "map_of cfg vendor = None \<Longrightarrow> get_rate cfg vendor ts = Inl KeyError"
  by (simp add: get_rate_def vendor_rates_at_no_vendor)

lemma get_solar_rate_no_vendor:
  "map_of cfg vendor = None \<Longrightarrow> get_solar_rate cfg vendor ts = Inl KeyError"
  by (simp add: get_solar_rate_def vendor_rates_at_no_vendor)

lemma get_supply_charge_no_vendor:
  "map_of cfg vendor = None \<Longrightarrow> get_supply_charge cfg vendor = Inl KeyError"
  by (simp add: get_supply_charge_def)

text \<open>With the vendor missing, each per-day sum either has nothing to price or fails.\<close>

lemma cost_loop_no_vendor:
  "map_of cfg vendor = None \<Longrightarrow>
     cost_loop cfg vendor rows acc = Inr acc \<or> cost_loop cfg vendor rows acc = Inl KeyError"
  by (induction rows arbitrary: acc) (auto simp: get_rate_no_vendor)

lemma solar_loop_no_vendor:
  "map_of cfg vendor = None \<Longrightarrow>
     solar_loop cfg vendor rows acc = Inr acc \<or> solar_loop cfg vendor rows acc = Inl KeyError"
  by (induction rows arbitrary: acc) (auto simp: get_solar_rate_no_vendor)

lemma cost_range_loop_no_vendor:
  assumes "map_of cfg vendor = None"
  shows "cost_range_loop df cfg vendor (date # dates) vars
           = Inl (if df = [] then AttributeError else KeyError)"
proof -
  obtain dc ds tc ts tsc td where vars: "vars = (dc, ds, tc, ts, tsc, td)"
    by (cases vars) auto
  from cost_loop_no_vendor [OF assms, of "day_rows df date" 0]
       solar_loop_no_vendor [OF assms, of "day_rows df date" 0]
  show ?thesis
    unfolding vars
    by (auto simp: calculate_cost_def calculate_solar_feedin_def date_data_def
        get_supply_charge_no_vendor [OF assms])
qed

lemma breakdown_days_no_vendor:
  assumes "map_of cfg vendor = None"
  shows "breakdown_days df cfg vendor (date # dates) vars
           = Inl (if df = [] then AttributeError else KeyError)"
proof -
  obtain ub tsc td where vars: "vars = (ub, tsc, td)"
    by (cases vars) auto
  show ?thesis
    unfolding vars by (simp add: date_data_def get_supply_charge_no_vendor [OF assms])
qed

lemma cost_loop_first_usage_fails:
  assumes "\<forall>r \<in> set rows. RateTypeDescription r = ''Usage'' \<longrightarrow> get_rate cfg vendor (StartDate r) = Inl e"
    and "\<exists>r \<in> set rows. RateTypeDescription r = ''Usage''"
  shows "cost_loop cfg vendor rows acc = Inl e"
  using assms by (induction rows arbitrary: acc) auto

text \<open>
  Claim C8. The spec's \<open>ConfigNotFound\<close> is the \<open>KeyError\<close> of a failed
  subscript. When the vendor's \<open>periods\<close> has no season holding the timestamp's
  month, \<open>get_rate\<close>, \<open>get_rate_type\<close> and \<open>get_solar_rate\<close> all
  raise it, and \<open>calculate_cost\<close> on a day with such a usage reading raises it too.
  When the vendor is missing from the configuration, \<open>get_supply_charge\<close> raises
  it, and so do \<open>calculate_cost_range\<close> and \<open>calculate_detailed_breakdown\<close>
  over any range with at least one day: nothing is defaulted. (On a table without rows
  both stop before any lookup, with the \<open>AttributeError\<close> of the date accessor.)
\<close>

theorem config_not_found_propagates:
  "(map_of cfg vendor = Some vc \<and> periods vc = Some ps
      \<and> (\<forall>(s, months) \<in> set ps. month ts \<notin> set months)
     \<longrightarrow> get_rate cfg vendor ts = Inl KeyError
         \<and> get_rate_type cfg vendor ts = Inl KeyError
         \<and> get_solar_rate cfg vendor ts = Inl KeyError
         \<and> (r \<in> set df \<and> StartDate r = ts \<and> RateTypeDescription r = ''Usage''
             \<longrightarrow> calculate_cost df cfg (date_of ts) vendor = Inl KeyError))
   \<and> (map_of cfg vendor = None
     \<longrightarrow> get_supply_charge cfg vendor = Inl KeyError
         \<and> (date_range start_date end_date \<noteq> []
             \<longrightarrow> calculate_cost_range df cfg start_date end_date vendor
                   = Inl (if df = [] then AttributeError else KeyError)
               \<and> calculate_detailed_breakdown df cfg start_date end_date vendor
                   = Inl (if df = [] then AttributeError else KeyError)))"
proof (intro conjI impI)
  assume h: "map_of cfg vendor = Some vc \<and> periods vc = Some ps
      \<and> (\<forall>(s, months) \<in> set ps. month ts \<notin> set months)"
  then have v: "vendor_rates_at cfg vendor ts = Inl KeyError"
    using vendor_rates_at_no_season by blast
  show "get_rate cfg vendor ts = Inl KeyError"
    by (simp add: get_rate_def v)
  show "get_rate_type cfg vendor ts = Inl KeyError"
    by (simp add: get_rate_type_def v)
  show "get_solar_rate cfg vendor ts = Inl KeyError"
    by (simp add: get_solar_rate_def v)
  assume u: "r \<in> set df \<and> StartDate r = ts \<and> RateTypeDescription r = ''Usage''"
  have fails: "get_rate cfg vendor (StartDate q) = Inl KeyError"
    if "q \<in> set (day_rows df (date_of ts))" for q
  proof -
    from that have "month (StartDate q) = month ts"
      by (simp add: day_rows_def date_of_def)
    with h have "vendor_rates_at cfg vendor (StartDate q) = Inl KeyError"
      using vendor_rates_at_no_season [of cfg vendor vc ps "StartDate q"] by simp
    then show ?thesis by (simp add: get_rate_def)
  qed
  from u have in_day: "r \<in> set (day_rows df (date_of ts))"
    by (simp add: day_rows_def)
  from u have "df \<noteq> []"
    by auto
  then have "calculate_cost df cfg (date_of ts) vendor
      = cost_loop cfg vendor (day_rows df (date_of ts)) 0"
    by (simp add: calculate_cost_def date_data_def)
  also from in_day u fails have "\<dots> = Inl KeyError"
    by (intro cost_loop_first_usage_fails) auto
  finally show "calculate_cost df cfg (date_of ts) vendor = Inl KeyError" .
next
  assume "map_of cfg vendor = None"
  then show "get_supply_charge cfg vendor = Inl KeyError"
    by (rule get_supply_charge_no_vendor)
next
  assume nv: "map_of cfg vendor = None" and ne: "date_range start_date end_date \<noteq> []"
  from ne obtain d ds where dr: "date_range start_date end_date = d # ds"
    by (cases "date_range start_date end_date") auto
  show "calculate_cost_range df cfg start_date end_date vendor
          = Inl (if df = [] then AttributeError else KeyError)"
    by (simp add: calculate_cost_range_def dr cost_range_loop_no_vendor [OF nv]
        del: cost_range_loop.simps)
  show "calculate_detailed_breakdown df cfg start_date end_date vendor
          = Inl (if df = [] then AttributeError else KeyError)"
    by (simp add: calculate_detailed_breakdown_def dr breakdown_days_no_vendor [OF nv]
        del: breakdown_days.simps)
qed

lemma date_range_one_day: "date_range (stamp y m d 0 0) (stamp y m d 0 0) = [(y, m, d)]"
  by (simp add: date_range_def date_of_def)

theorem config_not_found_propagates_witness:
  "get_rate demo_config ''summer_only'' (stamp 2024 7 2 15 0) = Inl KeyError
   \<and> get_rate_type demo_config ''summer_only'' (stamp 2024 7 2 15 0) = Inl KeyError
   \<and> get_solar_rate demo_config ''summer_only'' (stamp 2024 7 2 15 0) = Inl KeyError
   \<and> calculate_cost [july_usage] demo_config (2024, 7, 2) ''summer_only'' = Inl KeyError
   \<and> get_supply_charge demo_config ''nobody'' = Inl KeyError
   \<and> calculate_cost_range [july_usage] demo_config (stamp 2024 7 2 0 0) (stamp 2024 7 2 0 0) ''nobody''
       = Inl KeyError
   \<and> calculate_detailed_breakdown [july_usage] demo_config (stamp 2024 7 2 0 0) (stamp 2024 7 2 0 0)
         ''nobody'' = Inl KeyError"
proof -
  let ?vc = "\<lparr>periods = Some [(''summer'', [12, 1, 2])], supply_charge = Some 0.90,
               seasons = [(''summer'', [(''weekday'', demo_weekday), (''weekend'', demo_weekend)])]\<rparr>"
  have a: "map_of demo_config ''summer_only'' = Some ?vc"
    by (simp add: demo_config_def)
  have b: "periods ?vc = Some [(''summer'', [12, 1, 2])]"
    by simp
  have c: "\<forall>(s, months) \<in> set [(''summer'', [12, 1, 2 :: int])]. month (stamp 2024 7 2 15 0) \<notin> set months"
    by simp
  have d: "july_usage \<in> set [july_usage] \<and> StartDate july_usage = stamp 2024 7 2 15 0
           \<and> RateTypeDescription july_usage = ''Usage''"
    by (simp add: july_usage_def)
  have e: "map_of demo_config ''nobody'' = None"
    by (simp add: demo_config_def)
  have f: "date_range (stamp 2024 7 2 0 0) (stamp 2024 7 2 0 0) \<noteq> []"
    by (simp add: date_range_one_day)
  have g: "date_of (stamp 2024 7 2 15 0) = (2024, 7, 2)"
    by (simp add: date_of_def)
  from config_not_found_propagates
         [of demo_config "''summer_only''" ?vc "[(''summer'', [12, 1, 2])]" "stamp 2024 7 2 15 0"
             july_usage "[july_usage]"]
       a b c d g
  have first: "get_rate demo_config ''summer_only'' (stamp 2024 7 2 15 0) = Inl KeyError
   \<and> get_rate_type demo_config ''summer_only'' (stamp 2024 7 2 15 0) = Inl KeyError
   \<and> get_solar_rate demo_config ''summer_only'' (stamp 2024 7 2 15 0) = Inl KeyError
   \<and> calculate_cost [july_usage] demo_config (2024, 7, 2) ''summer_only'' = Inl KeyError"
    by simp
  from config_not_found_propagates
         [of demo_config "''nobody''" _ _ _ _ "[july_usage]" "stamp 2024 7 2 0 0" "stamp 2024 7 2 0 0"]
       e f
  have second: "get_supply_charge demo_config ''nobody'' = Inl KeyError
   \<and> calculate_cost_range [july_usage] demo_config (stamp 2024 7 2 0 0) (stamp 2024 7 2 0 0) ''nobody''
       = Inl KeyError
   \<and> calculate_detailed_breakdown [july_usage] demo_config (stamp 2024 7 2 0 0) (stamp 2024 7 2 0 0)
         ''nobody'' = Inl KeyError"
    by simp
  from first second show ?thesis by blast
qed


subsection \<open>First match and fallbacks\<close>

lemma loops_no_match:
  assumes "\<forall>e \<in> set vr. \<exists>rs. hours (snd e) = Some rs \<and> is_hour_in_range h rs = Inr False"
  shows "rate_loop h vr = Inr 0"
    and "rate_type_loop h vr = Inr ''off_peak''"
    and "solar_rate_loop h vr = Inr None"
  using assms by (induction vr) auto

lemma loops_first_match:
  assumes "\<forall>e \<in> set pre. \<exists>rs. hours (snd e) = Some rs \<and> is_hour_in_range h rs = Inr False"
    and "hours d = Some rs" and "is_hour_in_range h rs = Inr True"
  shows "rate_loop h (pre @ (name, d) # post) = required (rate d)"
    and "rate_type_loop h (pre @ (name, d) # post) = Inr name"
    and "solar_rate_loop h (pre @ (name, d) # post) = Inr (solar_rate d)"
  using assms by (induction pre) auto

lemma first_match_split:
  assumes "\<forall>e \<in> set vr. \<exists>rs b. hours (snd e) = Some rs \<and> is_hour_in_range h rs = Inr b"
    and "\<exists>e \<in> set vr. \<exists>rs. hours (snd e) = Some rs \<and> is_hour_in_range h rs = Inr True"
  shows "\<exists>pre name d post rs. vr = pre @ (name, d) # post
           \<and> (\<forall>e \<in> set pre. \<exists>rs. hours (snd e) = Some rs \<and> is_hour_in_range h rs = Inr False)
           \<and> hours d = Some rs \<and> is_hour_in_range h rs = Inr True"
proof -
  let ?P = "\<lambda>e. \<exists>rs. hours (snd e) = Some rs \<and> is_hour_in_range h rs = Inr True"
  from assms(2) obtain pre x post where vr: "vr = pre @ x # post" and x: "?P x"
    and pre: "\<forall>e \<in> set pre. \<not> ?P e"
    using split_list_first_prop [of vr ?P] by blast
  have "\<forall>e \<in> set pre. \<exists>rs. hours (snd e) = Some rs \<and> is_hour_in_range h rs = Inr False"
  proof
    fix e assume e: "e \<in> set pre"
    with assms(1) vr have "\<exists>rs b. hours (snd e) = Some rs \<and> is_hour_in_range h rs = Inr b"
      by simp
    then obtain rs b where "hours (snd e) = Some rs" "is_hour_in_range h rs = Inr b"
      by blast
    with pre e show "\<exists>rs. hours (snd e) = Some rs \<and> is_hour_in_range h rs = Inr False"
      by (cases b) auto
  qed
  with vr x show ?thesis
    by (cases x) auto
qed

text \<open>
  Claim C9. When the vendor, season and day type resolve to a rate table and the
  timestamp's hour lies in no entry's hour ranges, \<open>get_rate\<close> returns the rate
  0.0 without raising, \<open>get_rate_type\<close> returns the label \<open>off_peak\<close>, and
  \<open>get_solar_rate\<close> returns \<open>None\<close>.
\<close>

theorem unmatched_hour_fallbacks:
  assumes "vendor_rates_at cfg vendor ts = Inr vr"
    and "\<forall>e \<in> set vr. \<exists>rs. hours (snd e) = Some rs \<and> is_hour_in_range (hour ts) rs = Inr False"
  shows "get_rate cfg vendor ts = Inr 0
         \<and> get_rate_type cfg vendor ts = Inr ''off_peak''
         \<and> get_solar_rate cfg vendor ts = Inr None"
  using assms(1) loops_no_match [OF assms(2)]
  by (simp add: get_rate_def get_rate_type_def get_solar_rate_def)

lemma demo_weekday_hour_20:
  "\<forall>e \<in> set demo_weekday. \<exists>rs. hours (snd e) = Some rs \<and> is_hour_in_range 20 rs = Inr False"
  by (simp add: demo_weekday_def parse_range_14_20 parse_range_22_14)

theorem unmatched_hour_fallbacks_witness:
  "vendor_rates_at demo_config ''demo'' (stamp 2024 10 15 20 0) = Inr demo_weekday
   \<and> get_rate demo_config ''demo'' (stamp 2024 10 15 20 0) = Inr 0
   \<and> get_rate_type demo_config ''demo'' (stamp 2024 10 15 20 0) = Inr ''off_peak''
   \<and> get_solar_rate demo_config ''demo'' (stamp 2024 10 15 20 0) = Inr None"
proof -
  have h: "\<forall>e \<in> set demo_weekday. \<exists>rs. hours (snd e) = Some rs
             \<and> is_hour_in_range (hour (stamp 2024 10 15 20 0)) rs = Inr False"
    using demo_weekday_hour_20 by simp
  from unmatched_hour_fallbacks [OF demo_rates_tuesday h] demo_rates_tuesday
  show ?thesis by blast
qed

text \<open>
  Claim C10. When the rate table resolves, every entry's hour ranges can be read, and at
  least one entry holds the timestamp's hour, then there is a first such entry in the
  table's order, and all three queries answer from it: \<open>get_rate_type\<close> returns
  its name, \<open>get_rate\<close> its \<open>rate\<close> (a \<open>KeyError\<close> if the entry has
  none), and \<open>get_solar_rate\<close> its \<open>solar_rate\<close>.
\<close>

theorem first_match_is_shared:
  assumes "vendor_rates_at cfg vendor ts = Inr vr"
    and "\<forall>e \<in> set vr. \<exists>rs b. hours (snd e) = Some rs \<and> is_hour_in_range (hour ts) rs = Inr b"
    and "\<exists>e \<in> set vr. \<exists>rs. hours (snd e) = Some rs \<and> is_hour_in_range (hour ts) rs = Inr True"
  shows "\<exists>pre name d post rs.
           vr = pre @ (name, d) # post
           \<and> (\<forall>e \<in> set pre. \<exists>rs. hours (snd e) = Some rs \<and> is_hour_in_range (hour ts) rs = Inr False)
           \<and> hours d = Some rs \<and> is_hour_in_range (hour ts) rs = Inr True
           \<and> get_rate_type cfg vendor ts = Inr name
           \<and> get_rate cfg vendor ts = required (rate d)
           \<and> get_solar_rate cfg vendor ts = Inr (solar_rate d)"
proof -
  from first_match_split [OF assms(2,3)]
  obtain pre name d post rs where vr: "vr = pre @ (name, d) # post"
    and pre: "\<forall>e \<in> set pre. \<exists>rs. hours (snd e) = Some rs \<and> is_hour_in_range (hour ts) rs = Inr False"
    and d: "hours d = Some rs" "is_hour_in_range (hour ts) rs = Inr True"
    by blast
  from loops_first_match [OF pre d, of name post] assms(1)
  have "get_rate_type cfg vendor ts = Inr name
        \<and> get_rate cfg vendor ts = required (rate d)
        \<and> get_solar_rate cfg vendor ts = Inr (solar_rate d)"
    by (simp add: get_rate_def get_rate_type_def get_solar_rate_def vr)
  with vr pre d show ?thesis by blast
qed

lemma demo_weekday_hour_12:
  "(\<forall>e \<in> set demo_weekday. \<exists>rs b. hours (snd e) = Some rs \<and> is_hour_in_range 12 rs = Inr b)
   \<and> (\<exists>e \<in> set demo_weekday. \<exists>rs. hours (snd e) = Some rs \<and> is_hour_in_range 12 rs = Inr True)"
  by (auto simp: demo_weekday_def parse_range_14_20 parse_range_22_14)

lemma demo_weekday_split_unique:
  assumes "demo_weekday = pre @ (name, d) # post"
    and "hours d = Some rs" and "is_hour_in_range 12 rs = Inr True"
  shows "name = ''off_peak'' \<and> rate d = Some 0.20 \<and> solar_rate d = Some 0.10"
proof -
  have "(name, d) \<in> set demo_weekday"
    by (subst assms(1)) simp
  with assms(2,3) show ?thesis
    by (auto simp: demo_weekday_def parse_range_14_20)
qed

theorem first_match_is_shared_witness:
  "get_rate_type demo_config ''demo'' (stamp 2024 10 15 12 0) = Inr ''off_peak''
   \<and> get_rate demo_config ''demo'' (stamp 2024 10 15 12 0) = Inr 0.20
   \<and> get_solar_rate demo_config ''demo'' (stamp 2024 10 15 12 0) = Inr (Some 0.10)"
proof -
  have a: "\<forall>e \<in> set demo_weekday. \<exists>rs b. hours (snd e) = Some rs
             \<and> is_hour_in_range (hour (stamp 2024 10 15 12 0)) rs = Inr b"
    using demo_weekday_hour_12 by simp
  have b: "\<exists>e \<in> set demo_weekday. \<exists>rs. hours (snd e) = Some rs
             \<and> is_hour_in_range (hour (stamp 2024 10 15 12 0)) rs = Inr True"
    using demo_weekday_hour_12 by simp
  from first_match_is_shared [OF demo_rates_tuesday a b]
  obtain pre name d post rs where "demo_weekday = pre @ (name, d) # post"
    and "hours d = Some rs" and "is_hour_in_range 12 rs = Inr True"
    and res: "get_rate_type demo_config ''demo'' (stamp 2024 10 15 12 0) = Inr name"
      "get_rate demo_config ''demo'' (stamp 2024 10 15 12 0) = required (rate d)"
      "get_solar_rate demo_config ''demo'' (stamp 2024 10 15 12 0) = Inr (solar_rate d)"
    by auto
  with demo_weekday_split_unique [of pre name d post rs] show ?thesis
    by simp
qed


section \<open>Properties of the billing aggregator\<close>

subsection \<open>The calendar days of a range\<close>























subsection \<open>What one pass over some rows adds\<close>

lemma labelled_Cons:
  "labelled cfg vendor name (r # rs)
     = (if RateTypeDescription r = ''Usage'' \<and> get_rate_type cfg vendor (StartDate r) = Inr name
        then r # labelled cfg vendor name rs else labelled cfg vendor name rs)"
  by (simp add: labelled_def usage_readings_def)

lemma labelled_append:
  "labelled cfg vendor name (xs @ ys) = labelled cfg vendor name xs @ labelled cfg vendor name ys"
  by (simp add: labelled_def usage_readings_def)


lemma solar_readings_append: "solar_readings (xs @ ys) = solar_readings xs @ solar_readings ys"
  by (simp add: solar_readings_def)










subsection \<open>What the day loop adds\<close>


lemma date_data_Inr: "date_data df date = Inr rows \<Longrightarrow> df \<noteq> [] \<and> rows = day_rows df date"
  by (auto simp: date_data_def split: if_splits)

lemma rows_of_days_Cons: "rows_of_days df (date # dates) = day_rows df date @ rows_of_days df dates"
  by (simp add: rows_of_days_def)



subsection \<open>A well-formed tariff answers every query\<close>

lemma is_hour_in_range_total:
  "list_all range_ok rs \<Longrightarrow> \<exists>b. is_hour_in_range h rs = Inr b"
  by (induction rs) (auto simp: range_ok_def split: sum.splits)



lemma day_type_cases: "day_type ts = ''weekday'' \<or> day_type ts = ''weekend''"
  by (simp add: day_type_def)

lemma well_formed_rates:
  assumes "well_formed cfg vendor" and "1 \<le> month ts" and "month ts \<le> 12"
  shows "\<exists>vr. vendor_rates_at cfg vendor ts = Inr vr \<and> list_all entry_ok vr"
proof -
  from assms(1) obtain vc ps where vc: "map_of cfg vendor = Some vc" "periods vc = Some ps"
    and months: "list_all (month_ok vc ps) [1, 2, 3, 4, 5, 6, 7, 8, 9, 10, 11, 12]"
    by (auto simp: well_formed_def split: option.splits)
  from assms(2,3) have "month ts \<in> set [1, 2, 3, 4, 5, 6, 7, 8, 9, 10, 11, 12]"
    by (simp only: set_simps insert_iff empty_iff) arith
  with months have "month_ok vc ps (month ts)"
    by (simp only: list_all_iff)
  then obtain s sc where s: "first_season (month ts) ps = Some s" "map_of (seasons vc) s = Some sc"
    and ok: "rates_ok sc ''weekday''" "rates_ok sc ''weekend''"
    by (auto simp: month_ok_def split: option.splits)
  from ok day_type_cases [of ts] have "rates_ok sc (day_type ts)"
    by auto
  then obtain vr where "map_of sc (day_type ts) = Some vr" "list_all entry_ok vr"
    by (auto simp: rates_ok_def split: option.splits)
  with vc s show ?thesis
    by (simp add: vendor_rates_at_def get_season_def)
qed



lemma solar_rate_loop_total: "list_all entry_ok vr \<Longrightarrow> \<exists>x. solar_rate_loop h vr = Inr x"
proof (induction vr)
  case Nil
  then show ?case by simp
next
  case (Cons e vr)
  obtain name d where e: "e = (name, d)" by (cases e)
  from Cons.prems e obtain rs where d: "hours d = Some rs" "list_all range_ok rs"
    by (auto simp: entry_ok_def split: option.splits)
  from is_hour_in_range_total [OF d(2)] obtain b where "is_hour_in_range h rs = Inr b"
    by blast
  with Cons e d show ?case
    by (cases b) auto
qed


lemma well_formed_solar_row:
  assumes "well_formed cfg vendor" and "1 \<le> month ts" and "month ts \<le> 12"
  shows "\<exists>x. get_solar_rate cfg vendor ts = Inr x"
proof -
  from well_formed_rates [OF assms] obtain vr where
    vr: "vendor_rates_at cfg vendor ts = Inr vr" "list_all entry_ok vr"
    by blast
  from solar_rate_loop_total [OF vr(2)] vr(1) show ?thesis
    by (simp add: get_solar_rate_def)
qed




subsection \<open>Each reading of the range is visited once\<close>






subsection \<open>Sums do not depend on the order of the readings\<close>







subsection \<open>The breakdown partitions the usage and agrees with the range total\<close>











subsection \<open>In floats the two net costs differ\<close>






text \<open>
  The arithmetic of the example: 0.5 * 0.30 is 0.15 and 0.5 * 0.10 is 0.05 (to the
  nearest double); 0.15 - 0.05 is 0.09999999999999999 and adding 1.0 gives 1.1, while
  0.15 + 1.0 is 1.15 and taking 0.05 off gives 1.0999999999999999.
\<close>

lemmas float_defs = float_0_30_def float_0_20_def float_0_10_def float_1_0_def float_0_5_def
  zero_double_def normalise_def round_shift_def Let_def compute_bitlen



lemma float_net_cost_range:
  "Double 5404319552844595 (- 55) - Double 7205759403792794 (- 57) + float_1_0
     = Double 4953959590107546 (- 52)"
  by (simp add: float_defs)

lemma float_net_breakdown:
  "Double 5404319552844595 (- 55) + float_1_0 - Double 7205759403792794 (- 57)
     = Double 4953959590107545 (- 52)"
  by (simp add: float_defs)


subsection \<open>The buckets in any arithmetic\<close>

text \<open>
  Which reading goes to which bucket does not depend on the arithmetic: in floats too,
  each bucket is the sum, taken in the order of the visit, of the readings with its label
  and of no other.
\<close>

lemma buckets_fold_refl: "buckets_fold cfg vendor ub ub []"
  by (simp add: buckets_fold_def labelled_def usage_readings_def solar_readings_def)

lemma buckets_fold_trans:
  assumes "buckets_fold cfg vendor ub ub1 xs" and "buckets_fold cfg vendor ub1 ub2 ys"
  shows "buckets_fold cfg vendor ub ub2 (xs @ ys)"
  using assms by (simp add: buckets_fold_def labelled_append solar_readings_append)

lemma buckets_fold_usage:
  assumes "RateTypeDescription r = ''Usage''"
    and "get_rate cfg vendor (StartDate r) = Inr p"
    and "get_rate_type cfg vendor (StartDate r) = Inr rt"
    and "add_usage ub rt (ProfileReadValue r) p = Inr ub1"
  shows "buckets_fold cfg vendor ub ub1 [r]"
proof -
  from assms(4) consider
      "rt = ''peak''" "ub1 = ub\<lparr>peak := add_to_bucket (peak ub) (ProfileReadValue r) p\<rparr>"
    | "rt = ''off_peak''" "ub1 = ub\<lparr>off_peak := add_to_bucket (off_peak ub) (ProfileReadValue r) p\<rparr>"
    | "rt = ''shoulder''" "ub1 = ub\<lparr>shoulder := add_to_bucket (shoulder ub) (ProfileReadValue r) p\<rparr>"
    by (auto simp: add_usage_def split: if_splits)
  then show ?thesis
  proof cases
    case 1
    with assms(1,2,3) show ?thesis
      by (simp add: buckets_fold_def labelled_Cons labelled_def usage_readings_def
          reading_cost_def add_to_bucket_def solar_readings_def)
  next
    case 2
    with assms(1,2,3) show ?thesis
      by (simp add: buckets_fold_def labelled_Cons labelled_def usage_readings_def
          reading_cost_def add_to_bucket_def solar_readings_def)
  next
    case 3
    with assms(1,2,3) show ?thesis
      by (simp add: buckets_fold_def labelled_Cons labelled_def usage_readings_def
          reading_cost_def add_to_bucket_def solar_readings_def)
  qed
qed

lemma buckets_fold_solar:
  assumes "RateTypeDescription r = ''Solar''"
    and "get_solar_rate cfg vendor (StartDate r) = Inr f"
    and "add_solar ub (ProfileReadValue r) f = Inr ub1"
  shows "buckets_fold cfg vendor ub ub1 [r]"
proof -
  from assms(3) obtain x where f: "f = Some x"
    and ub1: "ub1 = ub\<lparr>solar := \<lparr>solar_kwh = solar_kwh (solar ub) + ProfileReadValue r,
                                  credit = credit (solar ub) + ProfileReadValue r * x\<rparr>\<rparr>"
    by (cases f) (auto simp: add_solar_def times_optional_def)
  from assms(1,2) f ub1 show ?thesis
    by (simp add: buckets_fold_def labelled_Cons labelled_def usage_readings_def
        solar_readings_def reading_credit_def)
qed

lemma buckets_fold_other:
  assumes "RateTypeDescription r \<noteq> ''Usage''" and "RateTypeDescription r \<noteq> ''Solar''"
  shows "buckets_fold cfg vendor ub ub [r]"
  using assms
  by (simp add: buckets_fold_def labelled_Cons labelled_def usage_readings_def solar_readings_def)

lemma breakdown_rows_fold:
  assumes "breakdown_rows cfg vendor rows ub = Inr ub'"
  shows "buckets_fold cfg vendor ub ub' rows"
  using assms
proof (induction rows arbitrary: ub)
  case Nil
  then show ?case by (simp add: buckets_fold_refl)
next
  case (Cons r rs)
  have step: "buckets_fold cfg vendor ub ub' (r # rs)"
    if "buckets_fold cfg vendor ub ub1 [r]" and "breakdown_rows cfg vendor rs ub1 = Inr ub'" for ub1
    using buckets_fold_trans [OF that(1) Cons.IH [OF that(2)]] by simp
  show ?case
  proof (cases "RateTypeDescription r = ''Usage''")
    case True
    with Cons.prems obtain p rt ub1 where
      p: "get_rate cfg vendor (StartDate r) = Inr p"
      and rt: "get_rate_type cfg vendor (StartDate r) = Inr rt"
      and ub1: "add_usage ub rt (ProfileReadValue r) p = Inr ub1"
      and rest: "breakdown_rows cfg vendor rs ub1 = Inr ub'"
      by (auto simp: bind_result_def split: sum.splits)
    from buckets_fold_usage [OF True p rt ub1] rest show ?thesis
      by (rule step)
  next
    case nu: False
    show ?thesis
    proof (cases "RateTypeDescription r = ''Solar''")
      case True
      with nu Cons.prems obtain f ub1 where
        f: "get_solar_rate cfg vendor (StartDate r) = Inr f"
        and ub1: "add_solar ub (ProfileReadValue r) f = Inr ub1"
        and rest: "breakdown_rows cfg vendor rs ub1 = Inr ub'"
        by (auto simp: bind_result_def split: sum.splits)
      from buckets_fold_solar [OF True f ub1] rest show ?thesis
        by (rule step)
    next
      case False
      with nu Cons.prems have rest: "breakdown_rows cfg vendor rs ub = Inr ub'"
        by simp
      from buckets_fold_other [OF nu False] rest show ?thesis
        by (rule step)
    qed
  qed
qed

lemma breakdown_days_fold:
  assumes "breakdown_days df cfg vendor dates (ub, tsc, td) = Inr (ub', tsc', td')"
  shows "buckets_fold cfg vendor ub ub' (rows_of_days df dates)"
  using assms
proof (induction dates arbitrary: ub tsc td)
  case Nil
  then show ?case by (simp add: rows_of_days_def buckets_fold_refl)
next
  case (Cons date dates)
  from Cons.prems obtain rows sc ub1 where
    rows: "date_data df date = Inr rows"
    and ub1: "breakdown_rows cfg vendor rows ub = Inr ub1"
    and rest: "breakdown_days df cfg vendor dates (ub1, tsc + sc, td + 1) = Inr (ub', tsc', td')"
    by (auto simp: bind_result_def split: sum.splits)
  from date_data_Inr [OF rows] have "rows = day_rows df date"
    by simp
  with breakdown_rows_fold [OF ub1] have "buckets_fold cfg vendor ub ub1 (day_rows df date)"
    by simp
  from buckets_fold_trans [OF this Cons.IH [OF rest]] show ?case
    by (simp add: rows_of_days_Cons)
qed

lemma buckets_in_any_arithmetic:
  assumes "calculate_detailed_breakdown df cfg start_date end_date vendor = Inr b"
  shows "buckets_fold cfg vendor empty_breakdown (breakdown b)
           (rows_of_days df (date_range start_date end_date))"
proof -
  from assms obtain ub tsc td where
    days: "breakdown_days df cfg vendor (date_range start_date end_date) (empty_breakdown, 0, 0)
             = Inr (ub, tsc, td)"
    and b: "breakdown b = ub"
    by (auto simp: calculate_detailed_breakdown_def bind_result_def Let_def split: sum.splits)
  from breakdown_days_fold [OF days] b show ?thesis
    by simp
qed

subsection \<open>An absent solar rate\<close>

lemma peak_solar_rate_absent:
  "get_solar_rate demo_config ''demo'' (stamp 2024 10 15 15 0) = Inr None"
  by (simp add: get_solar_rate_def demo_rates_tuesday demo_weekday_def parse_range_14_20)

lemma peak_solar_fields:
  "RateTypeDescription peak_solar = ''Solar''"
  "StartDate peak_solar = stamp 2024 10 15 15 0"
  "ProfileReadValue peak_solar = 1"
  by (simp_all add: peak_solar_def)

text \<open>
  Claim C1 asks that a \<open>Solar\<close> reading whose matching entry has no solar rate
  contributes zero credit and that the aggregation completes. The code multiplies the
  reading by \<open>None\<close> instead: for the solar reading at 15:00, where
  \<open>get_solar_rate\<close> returns \<open>None\<close>, \<open>calculate_solar_feedin\<close>,
  \<open>calculate_cost_range\<close> and \<open>calculate_detailed_breakdown\<close> all raise
  \<open>TypeError\<close>.
\<close>

theorem absent_solar_rate_raises:
  "get_solar_rate demo_config ''demo'' (StartDate peak_solar) = Inr None
   \<and> calculate_solar_feedin [peak_solar] demo_config (2024, 10, 15) ''demo'' = Inl TypeError
   \<and> calculate_cost_range [peak_solar] demo_config (stamp 2024 10 15 0 0) (stamp 2024 10 15 0 0) ''demo''
       = Inl TypeError
   \<and> calculate_detailed_breakdown [peak_solar] demo_config (stamp 2024 10 15 0 0)
       (stamp 2024 10 15 0 0) ''demo'' = Inl TypeError"
proof -
  have r: "get_solar_rate demo_config ''demo'' (StartDate peak_solar) = Inr None"
    by (simp add: peak_solar_fields peak_solar_rate_absent)
  have d: "date_data [peak_solar] (2024, 10, 15) = Inr [peak_solar]"
    by (simp add: date_data_def day_rows_def date_of_def peak_solar_fields)
  have s: "get_supply_charge demo_config ''demo'' = Inr 1"
    by (simp add: get_supply_charge_def demo_config_def)
  have f: "calculate_solar_feedin [peak_solar] demo_config (2024, 10, 15) ''demo'' = Inl TypeError"
    by (simp add: calculate_solar_feedin_def d r times_optional_def peak_solar_fields(1))
  have c: "calculate_cost [peak_solar] demo_config (2024, 10, 15) ''demo'' = Inr 0"
    by (simp add: calculate_cost_def d peak_solar_fields(1))
  have cr: "calculate_cost_range [peak_solar] demo_config (stamp 2024 10 15 0 0)
      (stamp 2024 10 15 0 0) ''demo'' = Inl TypeError"
    by (simp add: calculate_cost_range_def date_range_one_day c f)
  have rows: "breakdown_rows demo_config ''demo'' [peak_solar] empty_breakdown = Inl TypeError"
    by (simp add: r add_solar_def times_optional_def peak_solar_fields(1))
  have bd: "calculate_detailed_breakdown [peak_solar] demo_config (stamp 2024 10 15 0 0)
      (stamp 2024 10 15 0 0) ''demo'' = Inl TypeError"
    by (simp add: calculate_detailed_breakdown_def date_range_one_day s d rows
        del: breakdown_rows.simps)
  from r f cr bd show ?thesis by blast
qed


section \<open>Properties of the merge engine\<close>

subsection \<open>Columns and rows\<close>

lemma to_datetime_column_iff:
  "to_datetime_column cs = Inr ts \<longleftrightarrow> list_all2 (\<lambda>c t. to_datetime c = Inr t) cs ts"
proof (induction cs arbitrary: ts)
  case Nil
  then show ?case by auto
next
  case (Cons c cs)
  show ?case
  proof (cases "to_datetime c")
    case (Inl e)
    then show ?thesis by (auto simp: list_all2_Cons1)
  next
    case (Inr t)
    then show ?thesis
      using Cons.IH
      by (cases "to_datetime_column cs") (auto simp: list_all2_Cons1)
  qed
qed

lemma to_datetime_column_error: "to_datetime_column cs = Inl e \<Longrightarrow> e = ValueError"
proof (induction cs)
  case Nil
  then show ?case by simp
next
  case (Cons c cs)
  then show ?case
    by (cases c rule: to_datetime.cases; cases "to_datetime_column cs") auto
qed

lemma to_datetime_Str: "to_datetime (Str x) = Inr t \<longleftrightarrow> x = DMY t"
  by (cases x) auto

lemma instant_csv_text: "to_datetime c = Inr t \<Longrightarrow> instant (csv_text c) = Some t"
  by (cases c rule: to_datetime.cases) auto

lemma map_dates_fields [simp]:
  "AccountNumber (map_dates f r) = AccountNumber r"
  "NMI (map_dates f r) = NMI r"
  "DeviceNumber (map_dates f r) = DeviceNumber r"
  "DeviceType (map_dates f r) = DeviceType r"
  "RegisterCode (map_dates f r) = RegisterCode r"
  "RateTypeDescription (map_dates f r) = RateTypeDescription r"
  "StartDate (map_dates f r) = f (StartDate r)"
  "Start_Day (map_dates f r) = Start_Day r"
  "Start_Month (map_dates f r) = Start_Month r"
  "Start_Quarter (map_dates f r) = Start_Quarter r"
  "Start_Year (map_dates f r) = Start_Year r"
  "EndDate (map_dates f r) = f (EndDate r)"
  "ProfileReadValue (map_dates f r) = ProfileReadValue r"
  "RegisterReadValue (map_dates f r) = RegisterReadValue r"
  "QualityFlag (map_dates f r) = QualityFlag r"
  by (simp_all add: map_dates_def)

lemma read_row_fields [simp]:
  "AccountNumber (read_row table r) = read_column (map AccountNumber table) (AccountNumber r)"
  "NMI (read_row table r) = read_column (map NMI table) (NMI r)"
  "DeviceNumber (read_row table r) = read_column (map DeviceNumber table) (DeviceNumber r)"
  "DeviceType (read_row table r) = read_column (map DeviceType table) (DeviceType r)"
  "RegisterCode (read_row table r) = read_column (map RegisterCode table) (RegisterCode r)"
  "RateTypeDescription (read_row table r)
     = read_column (map RateTypeDescription table) (RateTypeDescription r)"
  "StartDate (read_row table r) = StartDate r"
  "Start_Day (read_row table r) = Start_Day r"
  "Start_Month (read_row table r) = Start_Month r"
  "Start_Quarter (read_row table r) = Start_Quarter r"
  "Start_Year (read_row table r) = Start_Year r"
  "EndDate (read_row table r) = EndDate r"
  "ProfileReadValue (read_row table r) = ProfileReadValue r"
  "RegisterReadValue (read_row table r) = RegisterReadValue r"
  "QualityFlag (read_row table r) = read_column (map QualityFlag table) (QualityFlag r)"
  by (simp_all add: read_row_def)

text \<open>
  A stored row whose dates parse is, once loaded and rewritten, the reading it was loaded
  as.
\<close>

lemma rewritten_row_same_reading:
  assumes "StartDate r = DMY s" and "EndDate r = DMY e"
  shows "meter_reading (map_dates csv_text ((map_dates Str r)\<lparr>StartDate := Stamp s, EndDate := Stamp e\<rparr>))
         = meter_reading r"
  using assms by (simp add: meter_reading_def map_dates_def)

lemma code_key_meter_reading:
  "StartDate r = DMY s \<Longrightarrow> code_key (meter_reading r) = Some (key_text (NMI r) (RegisterCode r) s)"
  by (simp add: code_key_def meter_reading_def)

lemma code_key_incoming:
  "to_datetime (StartDate r) = Inr t \<Longrightarrow> code_key (incoming_reading r) = Some (make_key r t)"
  by (simp add: code_key_def incoming_reading_def meter_reading_def make_key_def instant_csv_text)

lemma rewritten_rows_readings:
  assumes "list_all2 (\<lambda>r s. StartDate r = DMY s) rows sd"
    and "list_all2 (\<lambda>r e. EndDate r = DMY e) rows ed"
  shows "map meter_reading (to_csv
           (map (\<lambda>(r, s, e). r\<lparr>StartDate := Stamp s, EndDate := Stamp e\<rparr>)
              (zip (map (map_dates Str) (map (read_row table) rows)) (zip sd ed))))
         = map meter_reading (map (read_row table) rows)"
  using assms
proof (induction rows arbitrary: sd ed)
  case Nil
  then show ?case by (simp add: to_csv_def)
next
  case (Cons r rows)
  from Cons.prems obtain s sd' e ed' where sd: "sd = s # sd'" and ed: "ed = e # ed'"
    and r: "StartDate (read_row table r) = DMY s" "EndDate (read_row table r) = DMY e"
    and rest: "list_all2 (\<lambda>r s. StartDate r = DMY s) rows sd'"
      "list_all2 (\<lambda>r e. EndDate r = DMY e) rows ed'"
    by (auto simp: list_all2_Cons1)
  from Cons.IH [OF rest] rewritten_row_same_reading [OF r] show ?case
    by (simp add: to_csv_def sd ed)
qed

lemma rewritten_readings:
  assumes "list_all2 (\<lambda>r s. StartDate r = DMY s) rows sd"
    and "list_all2 (\<lambda>r e. EndDate r = DMY e) rows ed"
  shows "map meter_reading (to_csv (rewritten rows sd ed)) = map meter_reading (infer_columns rows)"
  unfolding rewritten_def read_csv_def infer_columns_def
  by (rule rewritten_rows_readings [OF assms])

lemma rewritten_rows_keys:
  assumes "list_all2 (\<lambda>r s. StartDate r = DMY s) rows sd"
    and "length ed = length rows"
  shows "map Some (map (\<lambda>(r, s). make_key r s)
           (zip (map (\<lambda>(r, s, e). r\<lparr>StartDate := Stamp s, EndDate := Stamp e\<rparr>)
                   (zip (map (map_dates Str) (map (read_row table) rows)) (zip sd ed))) sd))
         = map code_key (map meter_reading (map (read_row table) rows))"
  using assms
proof (induction rows arbitrary: sd ed)
  case Nil
  then show ?case by simp
next
  case (Cons r rows)
  from Cons.prems obtain s sd' e ed' where sd: "sd = s # sd'" and ed: "ed = e # ed'"
    and r: "StartDate (read_row table r) = DMY s"
    and rest: "list_all2 (\<lambda>r s. StartDate r = DMY s) rows sd'" "length ed' = length rows"
    by (cases ed) (auto simp: list_all2_Cons1)
  from Cons.IH [OF rest] code_key_meter_reading [OF r] show ?case
    by (simp add: sd ed make_key_def)
qed

lemma rewritten_keys:
  assumes "list_all2 (\<lambda>r s. StartDate r = DMY s) rows sd"
    and "length ed = length rows"
  shows "map Some (map (\<lambda>(r, s). make_key r s) (zip (rewritten rows sd ed) sd))
         = map code_key (map meter_reading (infer_columns rows))"
  unfolding rewritten_def read_csv_def infer_columns_def
  by (rule rewritten_rows_keys [OF assms])

text \<open>The incoming rows that survive the filter are the accepted readings.\<close>

lemma kept_incoming:
  assumes "list_all2 (\<lambda>r t. to_datetime (StartDate r) = Inr t) new_data nd"
  shows "map incoming_reading (map fst (filter (\<lambda>(r, t). make_key r t \<notin> K) (zip new_data nd)))
         = filter (\<lambda>r. code_key r \<notin> Some ` K) (map incoming_reading new_data)"
  using assms
proof (induction new_data arbitrary: nd)
  case Nil
  then show ?case by simp
next
  case (Cons r rs)
  from Cons.prems obtain t nd' where nd: "nd = t # nd'"
    and r: "to_datetime (StartDate r) = Inr t"
    and rest: "list_all2 (\<lambda>r t. to_datetime (StartDate r) = Inr t) rs nd'"
    by (auto simp: list_all2_Cons1)
  from Cons.IH [OF rest] code_key_incoming [OF r] show ?case
    by (auto simp: nd)
qed

subsection \<open>What a completed merge holds\<close>

lemma file_sort_key_written:
  "to_datetime (StartDate r) = Inr t \<Longrightarrow>
     file_sort_key (map_dates csv_text r) = (NMI r, RegisterCode r, ts_tuple t)"
  by (simp add: file_sort_key_def instant_csv_text)

lemma mset_sort_values:
  assumes "length dts = length rows"
  shows "mset (sort_values rows dts) = mset (map fst rows)"
proof -
  have f: "(\<lambda>((r, n, c), t). r) = fst \<circ> fst"
    by auto
  have "mset (sort_values rows dts) = image_mset (fst \<circ> fst) (mset (zip rows dts))"
    by (simp add: sort_values_def f del: comp_apply)
  also have "\<dots> = mset (map fst (map fst (zip rows dts)))"
    by simp
  also have "\<dots> = mset (map fst rows)"
    using assms by simp
  finally show ?thesis .
qed

text \<open>Among text cells the rank orders as the text does.\<close>

lemma rank_text_order:
  "(rank False a, rank False b, c) \<le> (rank False a', rank False b', c')
     \<Longrightarrow> (a, b, c) \<le> (a', b', c')"
  by (auto simp: rank_def less_eq_prod_def less_prod_def)

lemma sorted_sort_values:
  assumes "list_all2 (\<lambda>x t. to_datetime (StartDate (fst x)) = Inr t) rows dts"
    and "\<forall>x \<in> set rows. snd x = (False, False)"
  shows "sorted (map file_sort_key (to_csv (sort_values rows dts)))"
proof -
  let ?f = "\<lambda>((r, n, c), t). (rank n (NMI r), rank c (RegisterCode r), ts_tuple t)"
  let ?h = "\<lambda>((r, n, c), t). file_sort_key (map_dates csv_text r)"
  let ?ps = "sort_key ?f (zip rows dts)"
  have z: "to_datetime (StartDate (fst (fst p))) = Inr (snd p) \<and> snd (fst p) = (False, False)"
    if "p \<in> set (zip rows dts)" for p
  proof -
    obtain x t where p: "p = (x, t)" by (cases p)
    from that p have "x \<in> set rows"
      by (auto dest: set_zip_leftD)
    with assms(2) have "snd x = (False, False)"
      by blast
    moreover from that p assms(1) have "to_datetime (StartDate (fst x)) = Inr t"
      by (auto simp: list_all2_iff)
    ultimately show ?thesis
      by (simp add: p)
  qed
  have le: "?h p \<le> ?h q"
    if p: "p \<in> set ?ps" and q: "q \<in> set ?ps" and pq: "?f p \<le> ?f q" for p q
  proof -
    obtain r n c t where p': "p = ((r, n, c), t)" by (cases p) auto
    obtain r' n' c' t' where q': "q = ((r', n', c'), t')" by (cases q) auto
    from z [of p] p p' have 1: "to_datetime (StartDate r) = Inr t" "n = False" "c = False"
      by auto
    from z [of q] q q' have 2: "to_datetime (StartDate r') = Inr t'" "n' = False" "c' = False"
      by auto
    from pq have "(NMI r, RegisterCode r, ts_tuple t) \<le> (NMI r', RegisterCode r', ts_tuple t')"
      unfolding p' q' 1 2 by (simp only: prod.case) (rule rank_text_order)
    then show ?thesis
      by (simp add: p' q' file_sort_key_written [OF 1(1)] file_sort_key_written [OF 2(1)])
  qed
  have "sorted (map ?f ?ps)"
    by (rule sorted_sort_key)
  then have "sorted_wrt (\<lambda>p q. ?f p \<le> ?f q) ?ps"
    by (simp only: sorted_map)
  then have "sorted_wrt (\<lambda>p q. ?h p \<le> ?h q) ?ps"
    by (rule sorted_wrt_mono_rel [rotated]) (rule le)
  then have "sorted (map ?h ?ps)"
    by (simp only: sorted_map)
  moreover have "map file_sort_key (to_csv (sort_values rows dts)) = map ?h ?ps"
    by (simp add: sort_values_def to_csv_def case_prod_beta)
  ultimately show ?thesis
    by simp
qed

lemma mset_readings_cong:
  "mset xs = mset ys \<Longrightarrow> mset (map meter_reading (to_csv xs)) = mset (map meter_reading (to_csv ys))"
  by (metis mset_map to_csv_def)

lemma readings_to_csv: "map meter_reading (to_csv rows) = map incoming_reading rows"
  by (simp add: to_csv_def incoming_reading_def)

lemma sorted_frame_no_file:
  assumes "sorted_frame None new_data = Inr (Some (frame, n))"
  shows "mset (map meter_reading (to_csv frame)) = mset (map incoming_reading new_data)"
    and "n = length new_data"
    and "sorted (map file_sort_key (to_csv frame))"
proof -
  let ?marked = "map (\<lambda>r. (r, False, False)) new_data"
  from assms obtain dts where dts: "to_datetime_column (map StartDate new_data) = Inr dts"
    and frame: "frame = sort_values ?marked dts" and n: "n = length new_data"
    by (auto simp: sorted_frame_def combine_def bind_result_def comp_def split: sum.splits)
  from dts have p: "list_all2 (\<lambda>x t. to_datetime (StartDate (fst x)) = Inr t) ?marked dts"
    by (simp add: to_datetime_column_iff list_all2_map1)
  then have len: "length dts = length ?marked"
    by (auto dest: list_all2_lengthD)
  have "mset frame = mset new_data"
    by (simp add: frame mset_sort_values [OF len] comp_def)
  then show "mset (map meter_reading (to_csv frame)) = mset (map incoming_reading new_data)"
    using mset_readings_cong readings_to_csv by metis
  show "n = length new_data" by (rule n)
  show "sorted (map file_sort_key (to_csv frame))"
    unfolding frame by (rule sorted_sort_values [OF p]) simp
qed

lemma combine_file:
  assumes "combine (Some rows) new_data = Inr c"
  shows "\<exists>sd ed nd. list_all2 (\<lambda>r s. StartDate r = DMY s) rows sd
           \<and> list_all2 (\<lambda>r e. EndDate r = DMY e) rows ed
           \<and> list_all2 (\<lambda>r t. to_datetime (StartDate r) = Inr t) new_data nd
           \<and> (let kept = filter (\<lambda>(r, t). make_key r t
                              \<notin> set (map (\<lambda>(r, s). make_key r s) (zip (rewritten rows sd ed) sd)))
                            (zip new_data nd)
              in c = (if map fst kept = [] then None
                      else Some (map (\<lambda>r. (r, int_column (map NMI rows),
                                            int_column (map RegisterCode rows)))
                                   (rewritten rows sd ed)
                                 @ map (\<lambda>r. (r, False, False)) (map fst kept),
                                 length (map fst kept))))"
proof -
  from assms obtain sd ed nd where
    sd: "to_datetime_column (map StartDate (read_csv rows)) = Inr sd"
    and ed: "to_datetime_column (map EndDate (read_csv rows)) = Inr ed"
    and nd: "to_datetime_column (map StartDate new_data) = Inr nd"
    by (auto simp: combine_def bind_result_def Let_def split: sum.splits)
  from sd have 1: "list_all2 (\<lambda>r s. StartDate r = DMY s) rows sd"
    by (simp add: to_datetime_column_iff read_csv_def infer_columns_def list_all2_map1
        to_datetime_Str)
  from ed have 2: "list_all2 (\<lambda>r e. EndDate r = DMY e) rows ed"
    by (simp add: to_datetime_column_iff read_csv_def infer_columns_def list_all2_map1
        to_datetime_Str)
  from nd have 3: "list_all2 (\<lambda>r t. to_datetime (StartDate r) = Inr t) new_data nd"
    by (simp add: to_datetime_column_iff list_all2_map1)
  from assms sd ed nd have "let kept = filter (\<lambda>(r, t). make_key r t
                              \<notin> set (map (\<lambda>(r, s). make_key r s) (zip (rewritten rows sd ed) sd)))
                            (zip new_data nd)
              in c = (if map fst kept = [] then None
                      else Some (map (\<lambda>r. (r, int_column (map NMI rows),
                                            int_column (map RegisterCode rows)))
                                   (rewritten rows sd ed)
                                 @ map (\<lambda>r. (r, False, False)) (map fst kept),
                                 length (map fst kept)))"
    by (auto simp: combine_def Let_def rewritten_def)
  with 1 2 3 show ?thesis by blast
qed

lemma accepted_file:
  assumes "list_all2 (\<lambda>r s. StartDate r = DMY s) rows sd" and "length ed = length rows"
    and "list_all2 (\<lambda>r t. to_datetime (StartDate r) = Inr t) new_data nd"
  shows "map incoming_reading (map fst (filter (\<lambda>(r, t). make_key r t
           \<notin> set (map (\<lambda>(r, s). make_key r s) (zip (rewritten rows sd ed) sd))) (zip new_data nd)))
         = accepted (Some rows) new_data"
proof -
  let ?K = "set (map (\<lambda>(r, s). make_key r s) (zip (rewritten rows sd ed) sd))"
  have "Some ` ?K = set (map Some (map (\<lambda>(r, s). make_key r s) (zip (rewritten rows sd ed) sd)))"
    by (simp only: set_map)
  also have "\<dots> = set (map code_key (map meter_reading (infer_columns rows)))"
    by (simp only: rewritten_keys [OF assms(1,2)])
  finally have K: "Some ` ?K = set (map code_key (loaded_readings (Some rows)))"
    by (simp add: loaded_readings_def)
  show ?thesis
    unfolding accepted_def K [symmetric] by (rule kept_incoming [OF assms(3)])
qed

lemma sorted_frame_file:
  assumes "sorted_frame (Some rows) new_data = Inr (Some (frame, n))"
  shows "mset (map meter_reading (to_csv frame))
           = mset (loaded_readings (Some rows)) + mset (accepted (Some rows) new_data)"
    and "n = length (accepted (Some rows) new_data)"
    and "text_keys (Some rows) \<Longrightarrow> sorted (map file_sort_key (to_csv frame))"
    and "accepted (Some rows) new_data \<noteq> []"
proof -
  from assms obtain combined dts where
    c: "combine (Some rows) new_data = Inr (Some (combined, n))"
    and dts: "to_datetime_column (map (\<lambda>(r, n, c). StartDate r) combined) = Inr dts"
    and frame: "frame = sort_values combined dts"
    by (auto simp: sorted_frame_def bind_result_def split: sum.splits option.splits)
  from combine_file [OF c] obtain sd ed nd where
    sd: "list_all2 (\<lambda>r s. StartDate r = DMY s) rows sd"
    and ed: "list_all2 (\<lambda>r e. EndDate r = DMY e) rows ed"
    and nd: "list_all2 (\<lambda>r t. to_datetime (StartDate r) = Inr t) new_data nd"
    and kept: "let kept = filter (\<lambda>(r, t). make_key r t
                              \<notin> set (map (\<lambda>(r, s). make_key r s) (zip (rewritten rows sd ed) sd)))
                            (zip new_data nd)
              in Some (combined, n) = (if map fst kept = [] then None
                      else Some (map (\<lambda>r. (r, int_column (map NMI rows),
                                            int_column (map RegisterCode rows)))
                                   (rewritten rows sd ed)
                                 @ map (\<lambda>r. (r, False, False)) (map fst kept),
                                 length (map fst kept)))"
    by blast
  define K where "K = map fst (filter (\<lambda>(r, t). make_key r t
                              \<notin> set (map (\<lambda>(r, s). make_key r s) (zip (rewritten rows sd ed) sd)))
                            (zip new_data nd))"
  from kept have ne: "K \<noteq> []"
    and combined: "combined = map (\<lambda>r. (r, int_column (map NMI rows),
                                         int_column (map RegisterCode rows))) (rewritten rows sd ed)
                              @ map (\<lambda>r. (r, False, False)) K"
    and n: "n = length K"
    by (auto simp: K_def Let_def split: if_splits)
  have rows_of: "map fst combined = rewritten rows sd ed @ K"
    by (simp add: combined comp_def)
  have len: "length ed = length rows"
    using ed by (simp add: list_all2_lengthD)
  have acc: "map incoming_reading K = accepted (Some rows) new_data"
    unfolding K_def by (rule accepted_file [OF sd len nd])
  from acc ne show "accepted (Some rows) new_data \<noteq> []"
    by (metis map_is_Nil_conv)
  from acc n show "n = length (accepted (Some rows) new_data)"
    by (metis length_map)
  have st: "(\<lambda>(r, n, c). StartDate r) = (\<lambda>x. StartDate (fst x))"
    by auto
  from dts have p: "list_all2 (\<lambda>x t. to_datetime (StartDate (fst x)) = Inr t) combined dts"
    by (simp add: to_datetime_column_iff list_all2_map1 st)
  show "sorted (map file_sort_key (to_csv frame))" if "text_keys (Some rows)"
  proof -
    from that have "\<forall>x \<in> set combined. snd x = (False, False)"
      by (auto simp: combined text_keys_def)
    with p show ?thesis
      unfolding frame by (rule sorted_sort_values)
  qed
  have "mset frame = mset (map fst combined)"
    unfolding frame using p by (intro mset_sort_values) (simp add: list_all2_lengthD)
  then have "mset (map meter_reading (to_csv frame))
      = mset (map meter_reading (to_csv (map fst combined)))"
    by (rule mset_readings_cong)
  also have "map meter_reading (to_csv (map fst combined))
      = map meter_reading (to_csv (rewritten rows sd ed)) @ map meter_reading (to_csv K)"
    by (simp add: rows_of to_csv_def)
  also have "\<dots> = map meter_reading (infer_columns rows) @ map incoming_reading K"
    by (simp only: rewritten_readings [OF sd ed]) (simp only: readings_to_csv)
  also have "\<dots> = loaded_readings (Some rows) @ accepted (Some rows) new_data"
    by (simp only: acc) (simp add: loaded_readings_def)
  finally show "mset (map meter_reading (to_csv frame))
           = mset (loaded_readings (Some rows)) + mset (accepted (Some rows) new_data)"
    by simp
qed

lemma accepted_no_file: "accepted None new_data = map incoming_reading new_data"
  by (simp add: accepted_def loaded_readings_def)

lemma written_frame:
  assumes "sorted_frame store new_data = Inr (Some (frame, n))"
  shows "mset (map meter_reading (to_csv frame))
           = mset (loaded_readings store) + mset (accepted store new_data)"
    and "n = length (accepted store new_data)"
    and "text_keys store \<Longrightarrow> sorted (map file_sort_key (to_csv frame))"
proof -
  show "mset (map meter_reading (to_csv frame))
           = mset (loaded_readings store) + mset (accepted store new_data)"
  proof (cases store)
    case None
    with sorted_frame_no_file(1) [of new_data frame n] assms show ?thesis
      by (simp add: accepted_no_file loaded_readings_def)
  next
    case (Some rows)
    with sorted_frame_file(1) [of rows new_data frame n] assms show ?thesis
      by simp
  qed
  show "n = length (accepted store new_data)"
  proof (cases store)
    case None
    with sorted_frame_no_file(2) [of new_data frame n] assms show ?thesis
      by (simp add: accepted_no_file)
  next
    case (Some rows)
    with sorted_frame_file(2) [of rows new_data frame n] assms show ?thesis
      by simp
  qed
  show "sorted (map file_sort_key (to_csv frame))" if "text_keys store"
  proof (cases store)
    case None
    with sorted_frame_no_file(3) [of new_data frame n] assms show ?thesis
      by simp
  next
    case (Some rows)
    with sorted_frame_file(3) [of rows new_data frame n] assms that show ?thesis
      by simp
  qed
qed


subsection \<open>The sample readings through the merge\<close>

lemma strftime_key_0000: "strftime_key (stamp 2021 11 4 0 0) = ''202111040000''"
  by (simp add: strftime_key_def pad2_def pad4_def digit_char_def)

lemma strftime_key_0030: "strftime_key (stamp 2021 11 4 0 30) = ''202111040030''"
  by (simp add: strftime_key_def pad2_def pad4_def digit_char_def)

lemma sample_columns:
  "int_column [''41032871534'']" "int_column [''41032871534'', ''41032871534'']"
  "number_text ''41032871534'' = ''41032871534''"
  "int_column [''700813815'']" "int_column [''700813815'', ''700813815'']"
  "number_text ''700813815'' = ''700813815''"
  "\<not> int_column [''700813815#E1'']" "\<not> int_column [''700813815#E1'', ''700813815#E1'']"
  "\<not> int_column [''COMMS4D'']" "\<not> int_column [''COMMS4D'', ''COMMS4D'']"
  "\<not> int_column [''Usage'']" "\<not> int_column [''Usage'', ''Usage'']"
  "\<not> int_column [''A'']" "\<not> int_column [''A'', ''A'']"
  "\<not> int_column ['''']" "\<not> int_column ['''', '''']"
  by (simp_all add: int_column_def whole_number_def number_value_def number_text_def
      is_digit_def digit_val_def)

lemmas merge_defs = append_to_csv_def sorted_frame_def combine_def read_csv_def to_csv_def
  infer_columns_def read_row_def read_column_def sample_columns rank_def number_value_def
  digit_val_def
  sort_values_def make_key_def key_text_def ts_tuple_def Let_def map_dates_def
  reading_def reading_a_def reading_b_def reading_a_changed_def
  reading_a_rewritten_def reading_b_rewritten_def
  strftime_key_0000 strftime_key_0030

lemma merge_twice_in_batch_eval: "append_to_csv None None [reading_b, reading_b]
  = ((True, SavedRecords 2), Some (to_csv [reading_b, reading_b]))"
  by (simp add: merge_defs)

lemma first_merge_eval: "append_to_csv None (Some (to_csv [reading_a])) [reading_b]
  = ((True, SavedRecords 1), Some (to_csv [reading_a_rewritten, reading_b]))"
  by (simp add: merge_defs)

lemma merge_changed_value_eval: "append_to_csv None (Some (to_csv [reading_a])) [reading_a_changed, reading_b]
  = ((True, SavedRecords 1), Some (to_csv [reading_a_rewritten, reading_b]))"
  by (simp add: merge_defs)

lemma merge_twice_in_batch_file_eval:
  "append_to_csv None (Some (to_csv [reading_a])) [reading_b, reading_b]
     = ((True, SavedRecords 2), Some (to_csv [reading_a_rewritten, reading_b, reading_b]))"
  by (simp add: merge_defs)


lemma second_import_eval:
  "append_to_csv None (Some (to_csv [reading_a, reading_b])) [reading_b, reading_a]
     = ((True, NoNewUnique), Some (to_csv [reading_a, reading_b]))"
  by (simp add: merge_defs)

lemma second_merge_eval:
  "append_to_csv None (Some (to_csv [reading_a_rewritten, reading_b])) [reading_b]
     = ((False, ErrorSaving ValueError), Some (to_csv [reading_a_rewritten, reading_b]))"
  by (simp add: merge_defs)




subsection \<open>Existing readings win\<close>

lemma strftime_key_minute: "minute_of t = minute_of t' \<Longrightarrow> strftime_key t = strftime_key t'"
  by (simp add: minute_of_def strftime_key_def)

lemma same_identity_same_code_key:
  assumes "identity_key r = Some k" and "identity_key r' = Some k"
  shows "code_key r = code_key r'"
  using assms
  by (auto simp: identity_key_def code_key_def key_text_def dest: strftime_key_minute)

lemma accepted_not_stored_key:
  assumes "stored \<in> set (loaded_readings store)" and "identity_key stored = Some k"
  shows "filter_mset (\<lambda>r. identity_key r = Some k) (mset (accepted store new_data)) = {#}"
proof -
  have "identity_key r \<noteq> Some k" if "r \<in> set (accepted store new_data)" for r
  proof
    assume "identity_key r = Some k"
    then have "code_key r = code_key stored"
      using assms(2) by (rule same_identity_same_code_key)
    with assms(1) have "code_key r \<in> set (map code_key (loaded_readings store))"
      by simp
    with that show False
      by (simp add: accepted_def)
  qed
  then show ?thesis
    by simp
qed

text \<open>
  What the filter does achieve: after a completed merge into an existing store, the
  readings under the key of a stored reading are the stored ones as they were loaded,
  value included; every incoming reading with that key has been dropped. Here the dates
  are compared as instants, which leaves their text out.
\<close>

lemma loaded_readings_kept:
  assumes "sorted_frame (Some existing) new_data = Inr (Some (frame, n))"
    and "stored \<in> set (loaded_readings (Some existing))"
    and "identity_key stored = Some k"
  shows "filter_mset (\<lambda>r. identity_key r = Some k) (mset (map meter_reading (to_csv frame)))
           = filter_mset (\<lambda>r. identity_key r = Some k) (mset (loaded_readings (Some existing)))"
proof -
  from accepted_not_stored_key [OF assms(2,3), of new_data]
  have none: "filter_mset (\<lambda>r. identity_key r = Some k) (mset (accepted (Some existing) new_data)) = {#}" .
  have "mset (map meter_reading (to_csv frame))
          = mset (loaded_readings (Some existing)) + mset (accepted (Some existing) new_data)"
    by (rule written_frame(1) [OF assms(1)])
  then show ?thesis
    using none by simp
qed

text \<open>
  Claim C3 asks that an incoming reading with the key of a stored reading is dropped and
  that the stored reading's fields are left unchanged. Reading A is stored; the batch
  holds A again with another value, and a new reading B. The incoming A is dropped and
  the stored value stays, but the merge writes A's \<open>StartDate\<close> and
  \<open>EndDate\<close> back as \<open>YYYY-MM-DD HH:MM:SS\<close>: the stored row is no longer in
  the file, and the file's own parser rejects the row that replaced it.
\<close>

theorem stored_dates_are_rewritten:
  "append_to_csv None (Some (to_csv [reading_a])) [reading_a_changed, reading_b]
     = ((True, SavedRecords 1), Some (to_csv [reading_a_rewritten, reading_b]))
   \<and> map ProfileReadValue (to_csv [reading_a]) = [0.174]
   \<and> map ProfileReadValue (to_csv [reading_a_rewritten, reading_b]) = [0.174, 0.2]
   \<and> map StartDate (to_csv [reading_a]) = [DMY (stamp 2021 11 4 0 0)]
   \<and> map EndDate (to_csv [reading_a]) = [DMY (stamp 2021 11 4 0 30)]
   \<and> map StartDate (to_csv [reading_a_rewritten, reading_b])
       = [ISO (stamp 2021 11 4 0 0), DMY (stamp 2021 11 4 0 30)]
   \<and> map EndDate (to_csv [reading_a_rewritten, reading_b])
       = [ISO (stamp 2021 11 4 0 30), DMY (stamp 2021 11 4 1 0)]
   \<and> set (to_csv [reading_a]) \<inter> set (to_csv [reading_a_rewritten, reading_b]) = {}
   \<and> to_datetime_column (map StartDate (read_csv (to_csv [reading_a_rewritten, reading_b])))
       = Inl ValueError"
proof -
  have "map ProfileReadValue (to_csv [reading_a]) = [0.174]"
    by (simp add: to_csv_def reading_a_def reading_def)
  moreover have "map ProfileReadValue (to_csv [reading_a_rewritten, reading_b]) = [0.174, 0.2]"
    by (simp add: to_csv_def reading_a_rewritten_def reading_a_def reading_b_def reading_def)
  moreover have "map StartDate (to_csv [reading_a]) = [DMY (stamp 2021 11 4 0 0)]"
    by (simp add: to_csv_def reading_a_def reading_def)
  moreover have "map EndDate (to_csv [reading_a]) = [DMY (stamp 2021 11 4 0 30)]"
    by (simp add: to_csv_def reading_a_def reading_def)
  moreover have "map StartDate (to_csv [reading_a_rewritten, reading_b])
       = [ISO (stamp 2021 11 4 0 0), DMY (stamp 2021 11 4 0 30)]"
    by (simp add: to_csv_def reading_a_rewritten_def reading_b_def reading_def)
  moreover have "map EndDate (to_csv [reading_a_rewritten, reading_b])
       = [ISO (stamp 2021 11 4 0 30), DMY (stamp 2021 11 4 1 0)]"
    by (simp add: to_csv_def reading_a_rewritten_def reading_b_def reading_def)
  moreover have "set (to_csv [reading_a]) \<inter> set (to_csv [reading_a_rewritten, reading_b]) = {}"
    by (simp add: to_csv_def map_dates_def reading_a_rewritten_def reading_a_def reading_b_def
        reading_def stamp_def)
  moreover have "to_datetime_column (map StartDate (read_csv (to_csv [reading_a_rewritten, reading_b])))
       = Inl ValueError"
    by (simp add: read_csv_def infer_columns_def to_csv_def reading_a_rewritten_def reading_b_def
        reading_def)
  ultimately show ?thesis
    using merge_changed_value_eval by blast
qed

subsection \<open>Duplicates inside a batch\<close>

lemma identity_key_b:
  "identity_key (meter_reading (map_dates csv_text reading_b))
     = Some (''41032871534'', ''700813815#E1'', 2021, 11, 4, 0, 30)"
  by (simp add: identity_key_def meter_reading_def minute_of_def reading_b_def reading_def)

text \<open>
  Claim C4 asks that no two stored readings share an identity key after a successful
  merge, also when the batch itself holds a key twice and when the store is missing. The
  code only drops incoming rows whose key is already in the file: the same reading twice
  in one batch is stored twice, into a missing store and into an existing one, and both
  calls report success with two new records.
\<close>

theorem duplicate_keys_are_stored:
  "append_to_csv None None [reading_b, reading_b]
     = ((True, SavedRecords 2), Some (to_csv [reading_b, reading_b]))
   \<and> map identity_key (stored_readings (Some (to_csv [reading_b, reading_b])))
       = [Some (''41032871534'', ''700813815#E1'', 2021, 11, 4, 0, 30),
          Some (''41032871534'', ''700813815#E1'', 2021, 11, 4, 0, 30)]
   \<and> append_to_csv None (Some (to_csv [reading_a])) [reading_b, reading_b]
       = ((True, SavedRecords 2), Some (to_csv [reading_a_rewritten, reading_b, reading_b]))
   \<and> \<not> distinct (map identity_key
         (stored_readings (Some (to_csv [reading_a_rewritten, reading_b, reading_b]))))"
proof -
  have keys: "map identity_key (stored_readings (Some (to_csv [reading_b, reading_b])))
       = [Some (''41032871534'', ''700813815#E1'', 2021, 11, 4, 0, 30),
          Some (''41032871534'', ''700813815#E1'', 2021, 11, 4, 0, 30)]"
    by (simp add: stored_readings_def to_csv_def identity_key_b)
  have "\<not> distinct (map identity_key
         (stored_readings (Some (to_csv [reading_a_rewritten, reading_b, reading_b]))))"
    by (simp add: stored_readings_def to_csv_def)
  with merge_twice_in_batch_eval keys merge_twice_in_batch_file_eval show ?thesis
    by blast
qed

subsection \<open>Merging the same batch again\<close>

text \<open>
  After a first import into a missing file the dates are still in the file's own format,
  and the second run rejects both readings as duplicates (lemmas
  \<open>first_import_eval\<close> and \<open>second_import_eval\<close>).

  Claim C6 asks that merging a batch a second time rejects every incoming reading as a
  duplicate and accepts none. The first merge of reading B into a store holding reading A
  succeeds, but writes A's dates back as the text of a timestamp
  (\<open>YYYY-MM-DD HH:MM:SS\<close>) beside B's \<open>DD/MM/YYYY HH:MM:SS\<close>. The second
  merge of the same batch then fails at line 254 with \<open>ValueError\<close> and reports
  \<open>(False, 'Error saving data: ...')\<close>; the file stays as the first merge left it.
\<close>

theorem second_merge_fails_on_rewritten_dates:
  "append_to_csv None (Some (to_csv [reading_a])) [reading_b]
     = ((True, SavedRecords 1), Some (to_csv [reading_a_rewritten, reading_b]))
   \<and> map StartDate (to_csv [reading_a]) = [DMY (stamp 2021 11 4 0 0)]
   \<and> map StartDate (to_csv [reading_a_rewritten, reading_b])
       = [ISO (stamp 2021 11 4 0 0), DMY (stamp 2021 11 4 0 30)]
   \<and> append_to_csv None (Some (to_csv [reading_a_rewritten, reading_b])) [reading_b]
       = ((False, ErrorSaving ValueError), Some (to_csv [reading_a_rewritten, reading_b]))"
proof -
  have "map StartDate (to_csv [reading_a]) = [DMY (stamp 2021 11 4 0 0)]"
    by (simp add: to_csv_def reading_a_def reading_def)
  moreover have "map StartDate (to_csv [reading_a_rewritten, reading_b])
       = [ISO (stamp 2021 11 4 0 0), DMY (stamp 2021 11 4 0 30)]"
    by (simp add: to_csv_def reading_a_rewritten_def reading_b_def reading_def)
  ultimately show ?thesis
    using first_merge_eval second_merge_eval by blast
qed

subsection \<open>The write is not atomic\<close>




end

